theory Spec2Isabelle
  imports Complex_Main "HOL-Library.Sublist" "HOL-Library.List_Lexorder"
begin

section \<open>Data model of the memory-note application (ikitsuke.py)\<close>

text \<open>
  A Python \<open>str\<close> is a sequence of Unicode code points, so a string is a list of
  natural numbers here; \<open>ascii\<close> embeds an ASCII literal. Python floats (coordinates,
  timestamps, distances) are read as real numbers.
\<close>

type_synonym ustr = "nat list"

definition ascii :: "string \<Rightarrow> ustr" where
  "ascii s = map of_char s"

text \<open>
  The values \<open>json.loads\<close> can produce. The session stores whatever value the model's
  reply carried under the key \<open>recommended_note_id\<close>, so the two note-id slots of the
  session hold a JSON value (or Python's \<open>None\<close>).
\<close>

datatype json =
    JNull
  | JBool bool
  | JNum real
  | JStr ustr
  | JArr "json list"
  | JObj "(ustr \<times> json) list"

text \<open>Python truthiness of a decoded JSON value (\<open>if reco_id:\<close>).\<close>

fun truthy :: "json \<Rightarrow> bool" where
  "truthy JNull = False"
| "truthy (JBool b) = b"
| "truthy (JNum x) = (x \<noteq> 0)"
| "truthy (JStr s) = (s \<noteq> [])"
| "truthy (JArr xs) = (xs \<noteq> [])"
| "truthy (JObj kvs) = (kvs \<noteq> [])"

datatype entry_body =
    Text ustr
  | Image ustr
  | Drawing ustr
  | Combined ustr ustr

record entry =
  author_name :: ustr
  timestamp :: real
  body :: entry_body
  entry_hashtags :: "ustr list"

record mnote =
  note_id :: ustr
  title :: ustr
  hashtags :: "ustr list"
  lat :: real
  lng :: real
  creator_id :: ustr
  creator_name :: ustr
  entries :: "entry list"

record user =
  user_id :: ustr
  user_name :: ustr
  password_hash :: ustr

type_synonym coords = "real \<times> real"

datatype menu = NoteOps | Search | Account

datatype mode = PlaceMode | WriteMode

datatype role = Assistant | User

text \<open>
  The keys of \<open>st.session_state\<close> that the handlers below read or write.
  \<open>user_location\<close> is \<open>None\<close> until a geolocation sample with a truthy latitude
  has been stored (lines 180-182).
\<close>

record session =
  main_menu :: menu
  mode :: mode
  selected_note_id :: "json option"
  recommended_note_id :: "json option"
  user_location :: "coords option"
  center :: "coords option"
  zoom :: nat
  nearby_notes :: "mnote list"
  search_results :: "mnote list option"
  clicked_location :: "coords option"
  chat_messages :: "(role \<times> ustr) list"
  chat_started :: bool
  switch_to_note_mode :: bool
  initial_load :: bool
  initial_notes_generated :: bool

text \<open>The defaults of lines 108-120.\<close>

definition init_session :: session where
  "init_session = \<lparr> main_menu = NoteOps, mode = PlaceMode, selected_note_id = None,
     recommended_note_id = None, user_location = None, center = None, zoom = 15,
     nearby_notes = [], search_results = None, clicked_location = None,
     chat_messages = [], chat_started = False, switch_to_note_mode = False,
     initial_load = False, initial_notes_generated = False \<rparr>"

text \<open>
  \<open>n['id'] == v\<close> for a stored note id (always a string) and a session slot \<open>v\<close>.
\<close>

definition id_is :: "mnote \<Rightarrow> json option \<Rightarrow> bool" where
  "id_is n v = (v = Some (JStr (note_id n)))"

text \<open>\<open>next((n for n in all_notes if n['id'] == v), None)\<close>\<close>

definition find_note :: "mnote list \<Rightarrow> json option \<Rightarrow> mnote option" where
  "find_note all_notes v = List.find (\<lambda>n. id_is n v) all_notes"

text \<open>Python truthiness of a session slot holding an id or \<open>None\<close>.\<close>

definition slot_truthy :: "json option \<Rightarrow> bool" where
  "slot_truthy v = (case v of None \<Rightarrow> False | Some j \<Rightarrow> truthy j)"


section \<open>Proximity filter and access gates\<close>

text \<open>
  \<open>great_circle(a, b).km\<close> comes from the geopy library, not from this program: the
  distance function is a parameter \<open>gc\<close> of everything that measures a distance.

  Line 205 keeps the notes within 10 km of the user:
  \<^verbatim>\<open>[note for note in all_notes if great_circle(user_coords, (note['lat'], note['lng'])).km <= 10]\<close>
  The comprehension is the loop \<open>within_radius\<close>, with the literal 10 of the source as
  its argument \<open>r\<close>; \<open>nearby_filter\<close> is the comprehension as the program runs it.
\<close>

fun within_radius :: "(coords \<Rightarrow> coords \<Rightarrow> real) \<Rightarrow> coords \<Rightarrow> real \<Rightarrow> mnote list \<Rightarrow> mnote list" where
  "within_radius gc origin r [] = []"
| "within_radius gc origin r (n # ns) =
     (if gc origin (lat n, lng n) \<le> r then n # within_radius gc origin r ns
      else within_radius gc origin r ns)"

definition nearby_filter :: "(coords \<Rightarrow> coords \<Rightarrow> real) \<Rightarrow> coords \<Rightarrow> mnote list \<Rightarrow> mnote list" where
  "nearby_filter gc user_coords all_notes = within_radius gc user_coords 10 all_notes"

text \<open>Lines 180-182: a geolocation sample is stored only when its latitude is truthy.\<close>

definition sample_location :: "coords option \<Rightarrow> session \<Rightarrow> session" where
  "sample_location location s =
     (case location of
        None \<Rightarrow> s
      | Some c \<Rightarrow> if fst c \<noteq> 0 then s\<lparr>user_location := Some c\<rparr> else s)"

text \<open>Lines 203-205: \<open>not st.session_state.search_results\<close> holds for \<open>None\<close> and for \<open>[]\<close>.\<close>

definition refresh_nearby :: "(coords \<Rightarrow> coords \<Rightarrow> real) \<Rightarrow> mnote list \<Rightarrow> session \<Rightarrow> session" where
  "refresh_nearby gc all_notes s =
     (case user_location s of
        None \<Rightarrow> s
      | Some loc \<Rightarrow>
          if search_results s = None \<or> search_results s = Some []
          then s\<lparr>nearby_notes := nearby_filter gc loc all_notes\<rparr> else s)"

datatype gate = Permit | LocationUnavailable | TooFar

text \<open>
  Lines 477-491, for the selected note \<open>n\<close>: the note is viewable when it is the
  recommended one or close enough; otherwise an error is shown when no location is
  stored, and a warning about the 10 km when one is.
\<close>

definition is_viewable :: "(coords \<Rightarrow> coords \<Rightarrow> real) \<Rightarrow> session \<Rightarrow> mnote \<Rightarrow> gate" where
  "is_viewable gc s n =
     (let is_recommended = id_is n (recommended_note_id s);
          is_close_enough =
            (case user_location s of
               None \<Rightarrow> False
             | Some loc \<Rightarrow> gc loc (lat n, lng n) \<le> 10)
      in if is_recommended \<or> is_close_enough then Permit
         else if user_location s = None then LocationUnavailable
         else TooFar)"

text \<open>
  Lines 528-538, on submitting the entry form: posting asks for a stored location with a
  truthy latitude and for the 10 km; the recommendation is not consulted.
\<close>

definition post_allowed :: "(coords \<Rightarrow> coords \<Rightarrow> real) \<Rightarrow> session \<Rightarrow> mnote \<Rightarrow> gate" where
  "post_allowed gc s n =
     (case user_location s of
        None \<Rightarrow> LocationUnavailable
      | Some loc \<Rightarrow>
          if fst loc \<noteq> 0
          then (if gc loc (lat n, lng n) \<le> 10 then Permit else TooFar)
          else LocationUnavailable)"

text \<open>
  Lines 471-476: the right-hand column looks the selected note up, in write mode only.
\<close>

definition selected_note :: "mnote list \<Rightarrow> session \<Rightarrow> mnote option" where
  "selected_note all_notes s =
     (if main_menu s = NoteOps \<and> mode s = WriteMode \<and> slot_truthy (selected_note_id s)
      then find_note all_notes (selected_note_id s) else None)"

text \<open>
  What a handler reports when it does not carry its action out. \<open>NotShown\<close>: the widget is not
  rendered in this state; \<open>Denied g\<close>: the gate \<open>g\<close> refused; \<open>MalformedInput\<close>: a required
  field is empty; \<open>PermissionError\<close>: the delete block is withheld from a user who is not the
  creator; \<open>NotConfirmed\<close>: the confirmation checkbox or the button is not pressed.
\<close>

datatype error = NotShown | Denied gate | MalformedInput | PermissionError | NotConfirmed

section \<open>Hashtags\<close>

text \<open>
  \<open>str.isspace\<close> on one code point; \<open>str.split()\<close>, \<open>str.strip()\<close> and the regular
  expression class \<open>\s\<close> all use it.
\<close>

definition isspace :: "nat \<Rightarrow> bool" where
  "isspace c = ((9 \<le> c \<and> c \<le> 13) \<or> (28 \<le> c \<and> c \<le> 32) \<or> c = 133 \<or> c = 160
     \<or> c = 5760 \<or> (8192 \<le> c \<and> c \<le> 8202) \<or> c = 8232 \<or> c = 8233 \<or> c = 8239
     \<or> c = 8287 \<or> c = 12288)"

text \<open>\<open>s.split()\<close>: the maximal runs of non-space characters; \<open>cur\<close> is the run being read, reversed.\<close>

fun split_acc :: "ustr \<Rightarrow> ustr \<Rightarrow> ustr list" where
  "split_acc cur [] = (if cur = [] then [] else [rev cur])"
| "split_acc cur (c # cs) =
     (if isspace c then (if cur = [] then split_acc [] cs else rev cur # split_acc [] cs)
      else split_acc (c # cur) cs)"

definition split_ws :: "ustr \<Rightarrow> ustr list" where
  "split_ws s = split_acc [] s"

text \<open>\<open>f"#{tag.lstrip('#')}"\<close>; 35 is the number sign.\<close>

definition normalize_tag :: "ustr \<Rightarrow> ustr" where
  "normalize_tag tag = 35 # dropWhile (\<lambda>c. c = 35) tag"

text \<open>Lines 49-53. Python compares strings by code point, lexicographically.\<close>

definition parse_hashtags :: "ustr \<Rightarrow> ustr list" where
  "parse_hashtags tag_string =
     (if tag_string = [] then []
      else sort (remdups (map normalize_tag (filter (\<lambda>tag. tag \<noteq> []) (split_ws tag_string)))))"

datatype search_mode = AND | OR

text \<open>Lines 299-301: the note's own tags and the tags of all its entries.\<close>

definition all_tags_in_note :: "mnote \<Rightarrow> ustr set" where
  "all_tags_in_note n = set (hashtags n) \<union> (\<Union>e \<in> set (entries n). set (entry_hashtags e))"

text \<open>Lines 297-305: the search loop over \<open>all_notes\<close>, appending each match.\<close>

fun hashtag_search :: "search_mode \<Rightarrow> ustr list \<Rightarrow> mnote list \<Rightarrow> mnote list" where
  "hashtag_search m queries [] = []"
| "hashtag_search m queries (n # ns) =
     (if (case m of
            AND \<Rightarrow> list_all (\<lambda>q. q \<in> all_tags_in_note n) queries
          | OR \<Rightarrow> list_ex (\<lambda>q. q \<in> all_tags_in_note n) queries)
      then n # hashtag_search m queries ns
      else hashtag_search m queries ns)"

text \<open>
  Lines 294-310: the search button. An empty input is refused; otherwise every token is
  normalised (line 296) and the matches become the session's search results.
\<close>

definition search_hashtag_btn :: "search_mode \<Rightarrow> ustr \<Rightarrow> mnote list \<Rightarrow> session \<Rightarrow> error + session" where
  "search_hashtag_btn m hashtag_query_input all_notes s =
     (if main_menu s = Search then
        (if hashtag_query_input \<noteq> []
         then Inr (s\<lparr>search_results :=
                Some (hashtag_search m (map normalize_tag (split_ws hashtag_query_input)) all_notes)\<rparr>)
         else Inl MalformedInput)
      else Inl NotShown)"


section \<open>Note store: placing, seeding, selecting, appending, deleting\<close>

text \<open>
  Lines 219-246, the form of the placement mode. \<open>now_id\<close> is
  \<open>str(datetime.now().timestamp())\<close>, read from the clock. The new note is appended to
  \<open>all_notes\<close> and the whole list is saved; no id is compared with another.
\<close>

definition popup_note_form ::
  "ustr \<Rightarrow> user \<Rightarrow> ustr \<Rightarrow> ustr \<Rightarrow> mnote list \<Rightarrow> session \<Rightarrow> error + mnote list \<times> session" where
  "popup_note_form now_id current_user note_title note_hashtags all_notes s =
     (if main_menu s = NoteOps \<and> mode s = PlaceMode then
        (case clicked_location s of
           None \<Rightarrow> Inl NotShown
         | Some clicked \<Rightarrow>
             if note_title \<noteq> [] then
               Inr (all_notes @
                     [\<lparr> note_id = now_id, title = note_title,
                        hashtags = parse_hashtags note_hashtags,
                        lat = fst clicked, lng = snd clicked,
                        creator_id = user_id current_user,
                        creator_name = user_name current_user, entries = [] \<rparr>],
                    s\<lparr>clicked_location := None\<rparr>)
             else Inl MalformedInput)
      else Inl NotShown)"

text \<open>
  Lines 73-105, seeding from the places service. A place as the service returns it;
  \<open>place.get('place_id')\<close> and \<open>place.get('name', ...)\<close> may find nothing.
\<close>

record place =
  place_id :: "ustr option"
  place_name :: "ustr option"
  place_types :: "ustr list"
  place_lat :: real
  place_lng :: real

definition place_types_list :: "ustr list" where
  "place_types_list = [ascii ''cafe'', ascii ''park'', ascii ''tourist_attraction'',
     ascii ''restaurant'', ascii ''art_gallery'']"

definition seed_note :: "real \<Rightarrow> ustr \<Rightarrow> ustr \<Rightarrow> place \<Rightarrow> mnote" where
  "seed_note now place_type pid p =
     \<lparr> note_id = pid,
       title = (case place_name p of None \<Rightarrow> [21517, 31216, 19981, 26126] | Some nm \<Rightarrow> nm),
       hashtags = map (\<lambda>tag. 35 # tag) (place_types p),
       lat = place_lat p, lng = place_lng p,
       creator_id = ascii ''system'', creator_name = [33258, 21205, 29983, 25104],
       entries =
         [\<lparr> author_name = [12471, 12473, 12486, 12512], timestamp = now,
            body = Text ([12371, 12428, 12399]
                     @ (case place_name p of None \<Rightarrow> [] | Some nm \<Rightarrow> nm)
                     @ [12398, 24605, 12356, 20986, 12494, 12540, 12488, 12391, 12377, 12290]),
            entry_hashtags = [35 # place_type] \<rparr>] \<rparr>"

text \<open>
  The inner loop (lines 83-96) over the places of one type; the state is the pair
  \<open>(initial_notes, processed_place_ids)\<close>.
\<close>

fun seed_places :: "real \<Rightarrow> ustr \<Rightarrow> place list \<Rightarrow> mnote list \<times> ustr set \<Rightarrow> mnote list \<times> ustr set" where
  "seed_places now place_type [] st = st"
| "seed_places now place_type (p # ps) (initial_notes, processed) =
     (case place_id p of
        None \<Rightarrow> seed_places now place_type ps (initial_notes, processed)
      | Some pid \<Rightarrow>
          if pid \<noteq> [] \<and> pid \<notin> processed
          then seed_places now place_type ps
                 (initial_notes @ [seed_note now place_type pid p], insert pid processed)
          else seed_places now place_type ps (initial_notes, processed))"

text \<open>
  The outer loop (lines 81-82); \<open>places_nearby\<close> is the answer of the service per type.
  A call of the service that raises is not part of this model: the \<open>except\<close> clause of
  line 104 then stores nothing.
\<close>

fun seed_types :: "real \<Rightarrow> (ustr \<Rightarrow> place list) \<Rightarrow> ustr list \<Rightarrow> mnote list \<times> ustr set \<Rightarrow> mnote list \<times> ustr set" where
  "seed_types now places_nearby [] st = st"
| "seed_types now places_nearby (t # ts) st =
     seed_types now places_nearby ts (seed_places now t (places_nearby t) st)"

text \<open>Lines 98-103: the seeded notes replace the stored list, when there are any.\<close>

definition generate_initial_notes :: "real \<Rightarrow> (ustr \<Rightarrow> place list) \<Rightarrow> mnote list \<Rightarrow> mnote list" where
  "generate_initial_notes now places_nearby all_notes =
     (let initial_notes = fst (seed_types now places_nearby place_types_list ([], {}))
      in if initial_notes \<noteq> [] then initial_notes else all_notes)"

text \<open>
  Lines 253-273, the selection box of the write mode. \<open>selected_id\<close> is what the box
  returns: an id of \<open>notes_to_display\<close>, or nothing.
\<close>

definition notes_to_display :: "mnote list \<Rightarrow> session \<Rightarrow> mnote list" where
  "notes_to_display all_notes s = (case search_results s of None \<Rightarrow> all_notes | Some r \<Rightarrow> r)"

definition select_note :: "ustr option \<Rightarrow> mnote list \<Rightarrow> session \<Rightarrow> session" where
  "select_note selected_id all_notes s =
     (if main_menu s = NoteOps \<and> mode s = WriteMode \<and> notes_to_display all_notes s \<noteq> [] then
        (case selected_id of
           None \<Rightarrow> s
         | Some sid \<Rightarrow>
             if sid \<noteq> [] \<and> Some (JStr sid) \<noteq> selected_note_id s then
               (let s1 = s\<lparr>selected_note_id := Some (JStr sid), recommended_note_id := None\<rparr>
                in case find_note all_notes (Some (JStr sid)) of
                     None \<Rightarrow> s1
                   | Some n \<Rightarrow> s1\<lparr>center := Some (lat n, lng n), zoom := 17\<rparr>)
             else s)
      else s)"

text \<open>
  Line 561: \<open>selected_note\<close> is the first note of \<open>all_notes\<close> with the selected id, and the
  entry is appended to that very object.
\<close>

fun append_to_first :: "(mnote \<Rightarrow> bool) \<Rightarrow> entry \<Rightarrow> mnote list \<Rightarrow> mnote list" where
  "append_to_first P e [] = []"
| "append_to_first P e (n # ns) =
     (if P n then n\<lparr>entries := entries n @ [e]\<rparr> # ns else n # append_to_first P e ns)"

text \<open>
  Lines 544-558: the new entry. \<open>uploaded_file\<close> is the uploaded image, already as the
  data URL \<open>image_to_base64\<close> makes of it.
\<close>

definition new_entry :: "ustr \<Rightarrow> real \<Rightarrow> ustr \<Rightarrow> ustr option \<Rightarrow> ustr \<Rightarrow> entry" where
  "new_entry author post_time text_input uploaded_file entry_tags =
     \<lparr> author_name = author, timestamp = post_time,
       body = (case uploaded_file of
                 Some b64_str \<Rightarrow> if text_input \<noteq> [] then Combined text_input b64_str else Image b64_str
               | None \<Rightarrow> Text text_input),
       entry_hashtags = parse_hashtags entry_tags \<rparr>"

text \<open>
  Lines 493 and 521-564: the entry form is rendered for a viewable selected note only,
  and its submission passes the posting gate before anything is stored.
\<close>

definition entry_form ::
  "(coords \<Rightarrow> coords \<Rightarrow> real) \<Rightarrow> user \<Rightarrow> real \<Rightarrow> ustr \<Rightarrow> ustr option \<Rightarrow> ustr \<Rightarrow> mnote list \<Rightarrow> session
     \<Rightarrow> error + mnote list" where
  "entry_form gc current_user post_time text_input uploaded_file entry_tags all_notes s =
     (case selected_note all_notes s of
        None \<Rightarrow> Inl NotShown
      | Some n \<Rightarrow>
          if is_viewable gc s n = Permit then
            (case post_allowed gc s n of
               Permit \<Rightarrow>
                 if text_input = [] \<and> uploaded_file = None then Inl MalformedInput
                 else Inr (append_to_first (\<lambda>m. id_is m (selected_note_id s))
                             (new_entry (user_name current_user) post_time text_input
                                uploaded_file entry_tags) all_notes)
             | g \<Rightarrow> Inl (Denied g))
          else Inl NotShown)"

text \<open>
  Lines 566-579, the delete block shown under a viewable note \<open>n\<close>: it is rendered for
  the note's creator only; with the checkbox ticked and the button pressed, every note
  with the selected id leaves the list and four session keys are reset.
\<close>

definition delete_block ::
  "user \<Rightarrow> bool \<Rightarrow> bool \<Rightarrow> mnote \<Rightarrow> mnote list \<Rightarrow> session \<Rightarrow> error + mnote list \<times> session" where
  "delete_block current_user checkbox button n all_notes s =
     (if creator_id n = user_id current_user then
        (if checkbox \<and> button then
           Inr (filter (\<lambda>m. \<not> id_is m (selected_note_id s)) all_notes,
                s\<lparr>selected_note_id := None, nearby_notes := [], search_results := None,
                  recommended_note_id := None\<rparr>)
         else Inl NotConfirmed)
      else Inl PermissionError)"

text \<open>The delete block in its place in the right-hand column (lines 471-493, 566).\<close>

definition delete_note ::
  "(coords \<Rightarrow> coords \<Rightarrow> real) \<Rightarrow> user \<Rightarrow> bool \<Rightarrow> bool \<Rightarrow> mnote list \<Rightarrow> session
     \<Rightarrow> error + mnote list \<times> session" where
  "delete_note gc current_user checkbox button all_notes s =
     (case selected_note all_notes s of
        None \<Rightarrow> Inl NotShown
      | Some n \<Rightarrow>
          (case is_viewable gc s n of
             Permit \<Rightarrow> delete_block current_user checkbox button n all_notes s
           | g \<Rightarrow> Inl (Denied g)))"

text \<open>A handler that reports an error has stored nothing: the list and the session stay.\<close>

definition after :: "error + mnote list \<times> session \<Rightarrow> mnote list \<times> session \<Rightarrow> mnote list \<times> session" where
  "after r w = (case r of Inl e \<Rightarrow> w | Inr w' \<Rightarrow> w')"


section \<open>AI recommendation session\<close>

text \<open>
  Line 372 searches the reply for
  \<^verbatim>\<open>\{\s*"recommended_note_id":\s*".*?"\s*\}\<close>
  with \<open>re.DOTALL\<close>. Code points: 123 and 125 are the braces, 34 the double quote,
  58 the colon.
\<close>

definition key_name :: ustr where
  "key_name = ascii ''recommended_note_id''"

definition key_token :: ustr where
  "key_token = 34 # key_name @ [34, 58]"

fun strip_prefix :: "'a list \<Rightarrow> 'a list \<Rightarrow> 'a list option" where
  "strip_prefix [] s = Some s"
| "strip_prefix (p # ps) [] = None"
| "strip_prefix (p # ps) (c # cs) = (if p = c then strip_prefix ps cs else None)"

text \<open>
  The lazy \<open>.*?\<close> followed by \<open>"\s*\}\<close>: the body ends at the first double quote that
  white space and a closing brace follow. The result is what is left after the brace.
\<close>

fun lazy_tail :: "ustr \<Rightarrow> ustr option" where
  "lazy_tail [] = None"
| "lazy_tail (c # cs) =
     (case (if c = 34 then strip_prefix [125] (dropWhile isspace cs) else None) of
        Some rest \<Rightarrow> Some rest
      | None \<Rightarrow> lazy_tail cs)"

text \<open>
  A match starting at the head of \<open>s\<close>. A greedy \<open>\s*\<close> before a character that is not
  white space can only take the whole run of white space.
\<close>

definition match_here :: "ustr \<Rightarrow> ustr option" where
  "match_here s =
     Option.bind (strip_prefix [123] s) (\<lambda>r1.
     Option.bind (strip_prefix key_token (dropWhile isspace r1)) (\<lambda>r2.
     Option.bind (strip_prefix [34] (dropWhile isspace r2)) lazy_tail))"

text \<open>\<open>re.search(...)\<close> and \<open>group(0)\<close>: the match at the leftmost position that has one.\<close>

fun re_search :: "ustr \<Rightarrow> ustr option" where
  "re_search [] = None"
| "re_search (c # cs) =
     (case match_here (c # cs) of
        Some rest \<Rightarrow> Some (take (length (c # cs) - length rest) (c # cs))
      | None \<Rightarrow> re_search cs)"

text \<open>
  \<open>msg.replace(sub, "")\<close> removes the occurrences of \<open>sub\<close> from left to right, without
  overlap; \<open>k\<close> counts the characters of an occurrence still to skip.
\<close>

fun remove_skip :: "'a list \<Rightarrow> nat \<Rightarrow> 'a list \<Rightarrow> 'a list" where
  "remove_skip sub k [] = []"
| "remove_skip sub (Suc k) (c # cs) = remove_skip sub k cs"
| "remove_skip sub 0 (c # cs) =
     (if prefix sub (c # cs) then remove_skip sub (length sub - 1) cs
      else c # remove_skip sub 0 cs)"

definition remove_all :: "'a list \<Rightarrow> 'a list \<Rightarrow> 'a list" where
  "remove_all sub s = (if sub = [] then s else remove_skip sub 0 s)"

text \<open>\<open>s.strip()\<close>\<close>

definition strip :: "ustr \<Rightarrow> ustr" where
  "strip s = rev (dropWhile isspace (rev (dropWhile isspace s)))"

text \<open>The fixed greeting of line 326.\<close>

definition greeting :: ustr where
  "greeting = [12371, 12435, 12395, 12385, 12399, 65281, 12393, 12435, 12394, 22580, 25152,
     12398, 24605, 12356, 20986, 12395, 28024, 12426, 12383, 12356, 27671, 20998, 12391,
     12377, 12363, 65311, 20363, 12360, 12400, 12289, 12300, 38745, 12363, 12394, 22580,
     25152, 12301, 12300, 32654, 21619, 12375, 12356, 12418, 12398, 12364, 39135, 12409,
     12425, 12428, 12427, 22580, 25152, 12301, 12394, 12393, 12289, 12354, 12394, 12383,
     12398, 27671, 20998, 12420, 33288, 21619, 12434, 25945, 12360, 12390, 12367, 12384,
     12373, 12356, 12290]"

text \<open>Lines 320-329: the button that starts a consultation, offered when there are notes.\<close>

definition start_chat_btn :: "mnote list \<Rightarrow> session \<Rightarrow> error + session" where
  "start_chat_btn all_notes s =
     (if main_menu s = Search \<and> all_notes \<noteq> []
      then Inr (s\<lparr>chat_started := True, chat_messages := [(Assistant, greeting)],
                  recommended_note_id := None\<rparr>)
      else Inl NotShown)"

text \<open>Lines 414-417: the button that ends it.\<close>

definition stop_chat_btn :: "mnote list \<Rightarrow> session \<Rightarrow> error + session" where
  "stop_chat_btn all_notes s =
     (if main_menu s = Search \<and> all_notes \<noteq> [] \<and> chat_started s
      then Inr (s\<lparr>chat_started := False, chat_messages := []\<rparr>)
      else Inl NotShown)"

text \<open>
  What one submitted utterance ends in. \<open>Resolved\<close>: a recommendation is installed (lines
  390-401); \<open>AwaitingUserUtterance\<close>: the reply is appended and the consultation goes on
  (lines 404-409); \<open>NoDecision\<close>: the JSON carries no truthy id and nothing more happens;
  \<open>ProviderError\<close>: the call of the model raised (line 411); \<open>NoInput\<close>: the chat input is
  not rendered or is empty.
\<close>

datatype chat_state = Resolved | AwaitingUserUtterance | NoDecision | ProviderError | NoInput

definition say :: "role \<Rightarrow> ustr \<Rightarrow> session \<Rightarrow> session" where
  "say r content s = s\<lparr>chat_messages := chat_messages s @ [(r, content)]\<rparr>"

text \<open>
  Lines 390-399: the id is stored as recommendation and as selection, the consultation
  is closed and the switch to the write mode is requested; then the note is looked up,
  and the map moves to it when it exists.
\<close>

definition install_recommendation :: "json \<Rightarrow> mnote list \<Rightarrow> session \<Rightarrow> session" where
  "install_recommendation reco_id all_notes s =
     (let s1 = s\<lparr>recommended_note_id := Some reco_id, selected_note_id := Some reco_id,
                 chat_started := False, switch_to_note_mode := True\<rparr>
      in case find_note all_notes (Some reco_id) of
           None \<Rightarrow> s1
         | Some n \<Rightarrow> s1\<lparr>center := Some (lat n, lng n), zoom := 17\<rparr>)"

text \<open>
  Lines 371-409, from the reply \<open>msg\<close> on. \<open>json_loads\<close> is the decoder of the standard
  library, applied to a string that opens with a brace: it yields the members of an
  object, or nothing when it raises \<open>JSONDecodeError\<close>.
\<close>

definition process_reply ::
  "(ustr \<Rightarrow> (ustr \<times> json) list option) \<Rightarrow> mnote list \<Rightarrow> ustr \<Rightarrow> session \<Rightarrow> chat_state \<times> session" where
  "process_reply json_loads all_notes msg s =
     (case re_search msg of
        None \<Rightarrow> (AwaitingUserUtterance, say Assistant msg s)
      | Some json_str \<Rightarrow>
          (let conversation_text = strip (remove_all json_str msg) in
           case json_loads json_str of
             None \<Rightarrow> (AwaitingUserUtterance, say Assistant msg s)
           | Some reco_data \<Rightarrow>
               (case map_of reco_data key_name of
                  None \<Rightarrow> (NoDecision, s)
                | Some reco_id \<Rightarrow>
                    if truthy reco_id then
                      (Resolved,
                       install_recommendation reco_id all_notes
                         (if conversation_text \<noteq> [] then say Assistant conversation_text s else s))
                    else (NoDecision, s))))"

text \<open>
  Lines 331-412: one utterance of the user. \<open>reply\<close> is the content of the model's
  answer, or nothing when the call raised.
\<close>

definition chat_input ::
  "(ustr \<Rightarrow> (ustr \<times> json) list option) \<Rightarrow> mnote list \<Rightarrow> ustr \<Rightarrow> ustr option \<Rightarrow> session
     \<Rightarrow> chat_state \<times> session" where
  "chat_input json_loads all_notes prompt reply s =
     (if main_menu s = Search \<and> all_notes \<noteq> [] \<and> chat_started s \<and> prompt \<noteq> [] then
        (case reply of
           None \<Rightarrow> (ProviderError, say User prompt s)
         | Some msg \<Rightarrow> process_reply json_loads all_notes msg (say User prompt s))
      else (NoInput, s))"

text \<open>Lines 168-171: the requested switch is carried out at the start of the next run.\<close>

definition apply_switch :: "session \<Rightarrow> session" where
  "apply_switch s =
     (if switch_to_note_mode s
      then s\<lparr>main_menu := NoteOps, mode := WriteMode, switch_to_note_mode := False\<rparr>
      else s)"


text \<open>
  The pattern of line 372 read as a set of strings: an opening brace, white space, the
  quoted key and the colon, white space, a quoted body of any characters, white space,
  a closing brace. \<open>has_match\<close>: some substring of the reply is such a string.
\<close>

definition matches_pattern :: "ustr \<Rightarrow> bool" where
  "matches_pattern m \<longleftrightarrow>
     (\<exists>w1 w2 body w3. list_all isspace w1 \<and> list_all isspace w2 \<and> list_all isspace w3
        \<and> m = 123 # w1 @ key_token @ w2 @ 34 # body @ 34 # w3 @ [125])"

definition has_match :: "ustr \<Rightarrow> bool" where
  "has_match msg \<longleftrightarrow> (\<exists>pre m post. msg = pre @ m @ post \<and> matches_pattern m)"

section \<open>The script as a state machine\<close>

text \<open>
  Streamlit runs the script from the top on every interaction. One run takes the
  geolocation sample, the answer of the places service (used by seeding only) and at most
  one action of the user; the state between runs is the stored list of notes and the
  session.
\<close>

type_synonym world = "mnote list \<times> session"

datatype action =
    NoAction
  | SetMenu menu
  | SetMode mode
  | MapClick coords
  | CancelClick
  | MoveMap coords nat
  | PlaceNote ustr ustr ustr
  | SelectBox "ustr option"
  | SearchTags search_mode ustr
  | ClearSearch
  | StartChat
  | Utter ustr "ustr option"
  | StopChat
  | Post real ustr "ustr option" ustr
  | Delete bool bool
  | Logout

text \<open>Lines 123-162: a successful login or registration starts the session.\<close>

definition login_session :: session where
  "login_session = init_session\<lparr>initial_load := True\<rparr>"

definition on_error_keep :: "error + session \<Rightarrow> session \<Rightarrow> session" where
  "on_error_keep r s = (case r of Inl e \<Rightarrow> s | Inr s' \<Rightarrow> s')"

text \<open>
  The widgets of the sidebar, the map and the right-hand column (lines 207-585). The
  radio buttons write \<open>main_menu\<close> and \<open>mode\<close>; a click on the map is kept in placement
  mode (lines 459-462); the map and the place search move the centre (lines 278-286,
  464-468); logging out deletes every key, so that the next login starts from the
  defaults again (lines 424-427).
\<close>

definition handle ::
  "(coords \<Rightarrow> coords \<Rightarrow> real) \<Rightarrow> (ustr \<Rightarrow> (ustr \<times> json) list option) \<Rightarrow> user \<Rightarrow> action \<Rightarrow> world \<Rightarrow> world" where
  "handle gc json_loads u a w =
     (case w of (all_notes, s) \<Rightarrow>
        (case a of
           NoAction \<Rightarrow> w
         | SetMenu m \<Rightarrow> (all_notes, s\<lparr>main_menu := m\<rparr>)
         | SetMode m \<Rightarrow> (all_notes, if main_menu s = NoteOps then s\<lparr>mode := m\<rparr> else s)
         | MapClick c \<Rightarrow>
             (all_notes, if mode s = PlaceMode then s\<lparr>clicked_location := Some c\<rparr> else s)
         | CancelClick \<Rightarrow>
             (all_notes,
              if main_menu s = NoteOps \<and> mode s = PlaceMode then s\<lparr>clicked_location := None\<rparr>
              else s)
         | MoveMap c z \<Rightarrow> (all_notes, s\<lparr>center := Some c, zoom := z\<rparr>)
         | PlaceNote now_id note_title note_hashtags \<Rightarrow>
             after (popup_note_form now_id u note_title note_hashtags all_notes s) w
         | SelectBox selected_id \<Rightarrow> (all_notes, select_note selected_id all_notes s)
         | SearchTags m q \<Rightarrow> (all_notes, on_error_keep (search_hashtag_btn m q all_notes s) s)
         | ClearSearch \<Rightarrow>
             (all_notes, if main_menu s = Search then s\<lparr>search_results := None\<rparr> else s)
         | StartChat \<Rightarrow> (all_notes, on_error_keep (start_chat_btn all_notes s) s)
         | Utter prompt reply \<Rightarrow> (all_notes, snd (chat_input json_loads all_notes prompt reply s))
         | StopChat \<Rightarrow> (all_notes, on_error_keep (stop_chat_btn all_notes s) s)
         | Post post_time text_input uploaded_file entry_tags \<Rightarrow>
             (case entry_form gc u post_time text_input uploaded_file entry_tags all_notes s of
                Inl e \<Rightarrow> w
              | Inr all_notes' \<Rightarrow> (all_notes', s))
         | Delete checkbox button \<Rightarrow> after (delete_note gc u checkbox button all_notes s) w
         | Logout \<Rightarrow> (all_notes, if main_menu s = Account then login_session else s)))"

text \<open>
  One run of the script for a logged-in user (lines 165-205): the requested switch, the
  location sample, then seeding of an empty store, then the first centring of the map,
  each of these two ending the run at once (\<open>st.rerun()\<close>); nothing more is rendered
  while the map has no centre; otherwise the nearby notes are refreshed and the widgets
  are run.
\<close>

definition script_run ::
  "(coords \<Rightarrow> coords \<Rightarrow> real) \<Rightarrow> (ustr \<Rightarrow> (ustr \<times> json) list option) \<Rightarrow> user
     \<Rightarrow> coords option \<times> (real \<times> (ustr \<Rightarrow> place list)) \<times> action \<Rightarrow> world \<Rightarrow> world" where
  "script_run gc json_loads u inp w =
     (case (inp, w) of ((location, (now, places_nearby), a), (all_notes, s0)) \<Rightarrow>
        (let s = sample_location location (apply_switch s0) in
         if all_notes = [] \<and> user_location s \<noteq> None \<and> \<not> initial_notes_generated s then
           (generate_initial_notes now places_nearby all_notes, s\<lparr>initial_notes_generated := True\<rparr>)
         else if initial_load s \<and> user_location s \<noteq> None then
           (all_notes, s\<lparr>center := user_location s, zoom := 15, initial_load := False\<rparr>)
         else if center s = None then (all_notes, s)
         else handle gc json_loads u a (all_notes, refresh_nearby gc all_notes s)))"

text \<open>A session: the runs in order, from the state left by the login.\<close>

definition session_runs ::
  "(coords \<Rightarrow> coords \<Rightarrow> real) \<Rightarrow> (ustr \<Rightarrow> (ustr \<times> json) list option) \<Rightarrow> user
     \<Rightarrow> (coords option \<times> (real \<times> (ustr \<Rightarrow> place list)) \<times> action) list \<Rightarrow> world \<Rightarrow> world" where
  "session_runs gc json_loads u inps w = foldl (\<lambda>w inp. script_run gc json_loads u inp w) w inps"

text \<open>
  What a run that reaches the end of the script shows. While the map has no centre,
  the page is the notice of line 201 alone (the position is being acquired, the browser
  must permit it): no widget and no gate is run. Otherwise the right-hand column
  (lines 470-585) shows the body of the selected note when it is viewable, the message
  of the view gate when it is not, or one of two prompts.
\<close>

datatype column = NoteBody mnote | GateNotice gate | SelectPrompt | MenuPrompt | Blank

datatype page = LocationPending | Rendered column

definition right_column :: "(coords \<Rightarrow> coords \<Rightarrow> real) \<Rightarrow> mnote list \<Rightarrow> session \<Rightarrow> column" where
  "right_column gc all_notes s =
     (case selected_note all_notes s of
        Some n \<Rightarrow> (case is_viewable gc s n of Permit \<Rightarrow> NoteBody n | g \<Rightarrow> GateNotice g)
      | None \<Rightarrow>
          if main_menu s = NoteOps \<and> mode s = WriteMode \<and> \<not> slot_truthy (selected_note_id s)
          then SelectPrompt
          else if main_menu s \<noteq> NoteOps then MenuPrompt
          else Blank)"

definition page :: "(coords \<Rightarrow> coords \<Rightarrow> real) \<Rightarrow> mnote list \<Rightarrow> session \<Rightarrow> page" where
  "page gc all_notes s =
     (if center s = None then LocationPending else Rendered (right_column gc all_notes s))"

section \<open>Data for the examples\<close>

text \<open>
  A stand-in for the geopy distance in the examples below: 111 km per degree, summed
  along the two axes. The theorems hold for every distance function.
\<close>

definition flat_km :: "coords \<Rightarrow> coords \<Rightarrow> real" where
  "flat_km a b = 111 * (\<bar>fst a - fst b\<bar> + \<bar>snd a - snd b\<bar>)"

definition alice :: user where
  "alice = \<lparr> user_id = ascii ''alice'', user_name = ascii ''Alice'', password_hash = [] \<rparr>"

definition bob :: user where
  "bob = \<lparr> user_id = ascii ''bob'', user_name = ascii ''Bob'', password_hash = [] \<rparr>"

definition note_n1 :: mnote where
  "note_n1 = \<lparr> note_id = ascii ''n1'', title = ascii ''Pier'', hashtags = [ascii ''#sea''],
     lat = 35, lng = 139, creator_id = ascii ''alice'', creator_name = ascii ''Alice'',
     entries = [] \<rparr>"

definition note_n2 :: mnote where
  "note_n2 = \<lparr> note_id = ascii ''n2'', title = ascii ''Cafe'', hashtags = [ascii ''#lunch''],
     lat = 36, lng = 140, creator_id = ascii ''bob'', creator_name = ascii ''Bob'',
     entries = [\<lparr> author_name = ascii ''Bob'', timestamp = 1, body = Text (ascii ''hello''),
                  entry_hashtags = [ascii ''#sea''] \<rparr>] \<rparr>"

text \<open>Two places of the user: some 220 m and some 220 km from \<open>n1\<close>, in the stand-in distance.\<close>

definition near_place :: coords where
  "near_place = (35.001, 139.001)"

definition far_place :: coords where
  "far_place = (36, 140)"

text \<open>A session in write mode with \<open>n1\<close> selected, and the user at the given place.\<close>

definition writing :: "coords option \<Rightarrow> json option \<Rightarrow> session" where
  "writing loc reco = init_session\<lparr> mode := WriteMode,
     selected_note_id := Some (JStr (ascii ''n1'')), recommended_note_id := reco,
     user_location := loc \<rparr>"

text \<open>A session in placement mode after a click on the map, and two notes placed at the same clock reading.\<close>

definition placing :: session where
  "placing = init_session\<lparr>clicked_location := Some (35, 139)\<rparr>"

definition first_note :: mnote where
  "first_note = \<lparr> note_id = ascii ''1700000000.5'', title = ascii ''Pier'', hashtags = [],
     lat = 35, lng = 139, creator_id = ascii ''alice'', creator_name = ascii ''Alice'',
     entries = [] \<rparr>"

definition second_note :: mnote where
  "second_note = \<lparr> note_id = ascii ''1700000000.5'', title = ascii ''Cafe'', hashtags = [],
     lat = 35, lng = 139, creator_id = ascii ''bob'', creator_name = ascii ''Bob'',
     entries = [] \<rparr>"

text \<open>
  The reply of the example in the specification, the JSON text in it, and a session in
  the middle of a consultation.
\<close>

definition json_abc123 :: ustr where
  "json_abc123 = 123 # 34 # ascii ''recommended_note_id'' @ 34 # ascii '': '' @ 34 # ascii ''abc123'' @ [34, 125]"

definition reply_abc123 :: ustr where
  "reply_abc123 = ascii ''Here you go! '' @ json_abc123"

definition chatting :: session where
  "chatting = init_session\<lparr> main_menu := Search, chat_started := True,
     chat_messages := [(Assistant, greeting)], center := Some (35, 139) \<rparr>"

text \<open>
  A reply that names a note nobody placed, and a stand-in for \<open>json.loads\<close> in the
  examples: it decodes the two JSON texts above and below as the library does, and
  raises on every other text.
\<close>

definition json_zzz :: ustr where
  "json_zzz = 123 # 34 # ascii ''recommended_note_id'' @ 34 # ascii '': '' @ 34 # ascii ''zzz'' @ [34, 125]"

definition loads_example :: "ustr \<Rightarrow> (ustr \<times> json) list option" where
  "loads_example j =
     (if j = json_abc123 then Some [(key_name, JStr (ascii ''abc123''))]
      else if j = json_zzz then Some [(key_name, JStr (ascii ''zzz''))]
      else None)"

text \<open>
  A session of five runs: the map is centred on the user, the search menu is opened, a
  consultation is started, the reply to the first utterance recommends \<open>abc123\<close>, and
  then the user selects \<open>n1\<close> in the selection box. The places service is not needed.
\<close>

definition no_places :: "real \<times> (ustr \<Rightarrow> place list)" where
  "no_places = (0, \<lambda>t. [])"

definition runs_resolved :: "(coords option \<times> (real \<times> (ustr \<Rightarrow> place list)) \<times> action) list" where
  "runs_resolved = [(Some near_place, no_places, NoAction), (None, no_places, SetMenu Search),
     (None, no_places, StartChat),
     (None, no_places, Utter (ascii ''quiet'') (Some reply_abc123))]"

definition runs_reselected :: "(coords option \<times> (real \<times> (ustr \<Rightarrow> place list)) \<times> action) list" where
  "runs_reselected = runs_resolved @ [(None, no_places, SelectBox (Some (ascii ''n1'')))]"

text \<open>
  A note of Bob's with the id the reply recommends, 220 km from the user; and the
  session above ending in a delete instead of a selection.
\<close>

definition note_abc :: mnote where
  "note_abc = \<lparr> note_id = ascii ''abc123'', title = ascii ''Hut'', hashtags = [ascii ''#quiet''],
     lat = 36, lng = 140, creator_id = ascii ''bob'', creator_name = ascii ''Bob'',
     entries = [] \<rparr>"

definition runs_deleted :: "(coords option \<times> (real \<times> (ustr \<Rightarrow> place list)) \<times> action) list" where
  "runs_deleted = runs_resolved @ [(None, no_places, Delete True True)]"

text \<open>
  Two runs before any location has arrived: the user tries to select a note and to post
  an entry; the second sample has a latitude of 0, which line 181 does not store.
\<close>

definition runs_no_location :: "(coords option \<times> (real \<times> (ustr \<Rightarrow> place list)) \<times> action) list" where
  "runs_no_location = [(None, no_places, SelectBox (Some (ascii ''n1''))),
     (Some (0, 139), no_places, Post 2 (ascii ''hi'') None [])]"

text \<open>
  A session of four runs: the map is centred on the user, the write mode is chosen, the
  id \<open>1700000000.5\<close> is selected, and the delete is confirmed and pressed.
\<close>

definition runs_delete_same_id :: "(coords option \<times> (real \<times> (ustr \<Rightarrow> place list)) \<times> action) list" where
  "runs_delete_same_id = [(Some near_place, no_places, NoAction),
     (None, no_places, SetMode WriteMode),
     (None, no_places, SelectBox (Some (ascii ''1700000000.5''))),
     (None, no_places, Delete True True)]"

section \<open>Theorems\<close>

subsection \<open>The two gates\<close>

lemma is_viewable_permit_iff:
  "is_viewable gc s n = Permit \<longleftrightarrow>
     (\<exists>loc. user_location s = Some loc \<and> gc loc (lat n, lng n) \<le> 10) \<or> id_is n (recommended_note_id s)"
  by (cases "user_location s") (auto simp: is_viewable_def Let_def)

lemma post_allowed_permit_iff:
  "post_allowed gc s n = Permit \<longleftrightarrow>
     (\<exists>loc. user_location s = Some loc \<and> fst loc \<noteq> 0 \<and> gc loc (lat n, lng n) \<le> 10)"
  by (cases "user_location s") (auto simp: post_allowed_def)

lemma post_allowed_imp_viewable:
  "post_allowed gc s n = Permit \<Longrightarrow> is_viewable gc s n = Permit"
  unfolding is_viewable_permit_iff post_allowed_permit_iff by blast

lemma entry_form_Inr_iff:
  "(\<exists>ns. entry_form gc u t txt up tags all_notes s = Inr ns) \<longleftrightarrow>
     (\<exists>n. selected_note all_notes s = Some n \<and> post_allowed gc s n = Permit
          \<and> \<not> (txt = [] \<and> up = None))"
proof (cases "selected_note all_notes s")
  case None
  then show ?thesis by (simp add: entry_form_def)
next
  case (Some n)
  show ?thesis
  proof (cases "post_allowed gc s n = Permit")
    case True
    with Some post_allowed_imp_viewable [OF True] show ?thesis
      by (simp add: entry_form_def)
  next
    case False
    with Some show ?thesis
      by (cases "post_allowed gc s n") (simp_all add: entry_form_def)
  qed
qed

text \<open>
  C1, as the claim states it, fails: for a recommended note 222 km away (in the stand-in
  distance; the user at (36, 140), the note at (35, 139)) the body is viewable, and the
  submitted entry is refused with the message about the 10 km.
\<close>

theorem recommended_far_view_but_no_post:
  "id_is note_n1 (recommended_note_id (writing (Some far_place) (Some (JStr (ascii ''n1'')))))
   \<and> is_viewable flat_km (writing (Some far_place) (Some (JStr (ascii ''n1'')))) note_n1 = Permit
   \<and> post_allowed flat_km (writing (Some far_place) (Some (JStr (ascii ''n1'')))) note_n1 = TooFar
   \<and> entry_form flat_km bob 2 (ascii ''hi'') None [] [note_n1]
        (writing (Some far_place) (Some (JStr (ascii ''n1'')))) = Inl (Denied TooFar)"
  by (simp add: is_viewable_def post_allowed_def entry_form_def selected_note_def find_note_def
      id_is_def slot_truthy_def writing_def init_session_def note_n1_def flat_km_def far_place_def ascii_def)

text \<open>
  C1, amended: viewing the body of a note is permitted exactly when the stored location is
  within 10 km of the note or the note is the session's recommended one; an entry is
  appended exactly when a location with a truthy latitude is stored and is within 10 km
  of the selected note (and the entry is not empty). The recommendation opens the view,
  not the posting.
\<close>

theorem gate_rules:
  "(is_viewable gc s n = Permit \<longleftrightarrow>
      (\<exists>loc. user_location s = Some loc \<and> gc loc (lat n, lng n) \<le> 10)
      \<or> id_is n (recommended_note_id s))
   \<and> (post_allowed gc s n = Permit \<longleftrightarrow>
      (\<exists>loc. user_location s = Some loc \<and> fst loc \<noteq> 0 \<and> gc loc (lat n, lng n) \<le> 10))
   \<and> ((\<exists>ns. entry_form gc u t txt up tags all_notes s = Inr ns) \<longleftrightarrow>
      (\<exists>m. selected_note all_notes s = Some m \<and> post_allowed gc s m = Permit
           \<and> \<not> (txt = [] \<and> up = None)))"
  using is_viewable_permit_iff post_allowed_permit_iff entry_form_Inr_iff by blast

theorem gate_rules_witness:
  "is_viewable flat_km (writing (Some near_place) None) note_n1 = Permit
   \<and> post_allowed flat_km (writing (Some near_place) None) note_n1 = Permit
   \<and> (\<exists>ns. entry_form flat_km bob 2 (ascii ''hi'') None [] [note_n1]
              (writing (Some near_place) None) = Inr ns)"
proof -
  let ?s = "writing (Some near_place) None"
  have loc: "user_location ?s = Some near_place"
    by (simp add: writing_def init_session_def)
  have near: "fst near_place \<noteq> 0 \<and> flat_km near_place (lat note_n1, lng note_n1) \<le> 10"
    by (simp add: flat_km_def note_n1_def near_place_def)
  have sel: "selected_note [note_n1] ?s = Some note_n1"
    by (simp add: selected_note_def find_note_def id_is_def slot_truthy_def writing_def
        init_session_def note_n1_def ascii_def)
  have filled: "ascii ''hi'' \<noteq> []" by (simp add: ascii_def)
  have ex: "\<exists>loc. user_location ?s = Some loc \<and> fst loc \<noteq> 0
                \<and> flat_km loc (lat note_n1, lng note_n1) \<le> 10"
    using loc near by blast
  from gate_rules [of flat_km ?s note_n1 bob 2 "ascii ''hi''" None "[]" "[note_n1]"]
    ex sel filled
  show ?thesis by blast
qed

text \<open>
  The two gates on a session without a stored location: posting is refused with
  \<open>LocationUnavailable\<close>; viewing tests the recommendation first (line 486) and
  answers \<open>LocationUnavailable\<close> for every note that is not the recommended one.
\<close>

lemma no_location_gate:
  assumes "user_location s = None"
  shows "post_allowed gc s n = LocationUnavailable
       \<and> is_viewable gc s n = (if id_is n (recommended_note_id s) then Permit else LocationUnavailable)"
  using assms by (simp add: post_allowed_def is_viewable_def)

subsection \<open>The proximity filter\<close>

lemma within_radius_filter:
  "within_radius gc origin r all_notes = filter (\<lambda>n. gc origin (lat n, lng n) \<le> r) all_notes"
  by (induction all_notes) simp_all

text \<open>
  C6: for every origin, radius and list of notes, the filter returns exactly the notes
  at a distance of at most \<open>r\<close> (a note at exactly \<open>r\<close> is kept), in the order of the
  input; applied to one note, it is non-empty exactly when that note is within \<open>r\<close>. The
  program runs it at \<open>r = 10\<close>. Being a function of its arguments, it is deterministic
  and has no effect.
\<close>

theorem within_radius_exact:
  "within_radius gc origin r all_notes = filter (\<lambda>n. gc origin (lat n, lng n) \<le> r) all_notes
   \<and> set (within_radius gc origin r all_notes) = {n \<in> set all_notes. gc origin (lat n, lng n) \<le> r}
   \<and> subseq (within_radius gc origin r all_notes) all_notes
   \<and> (within_radius gc origin r [n] \<noteq> [] \<longleftrightarrow> gc origin (lat n, lng n) \<le> r)
   \<and> nearby_filter gc origin all_notes = within_radius gc origin 10 all_notes"
proof (intro conjI)
  show "within_radius gc origin r all_notes = filter (\<lambda>n. gc origin (lat n, lng n) \<le> r) all_notes"
    by (rule within_radius_filter)
  show "set (within_radius gc origin r all_notes) = {n \<in> set all_notes. gc origin (lat n, lng n) \<le> r}"
    by (simp add: within_radius_filter)
  show "subseq (within_radius gc origin r all_notes) all_notes"
    by (simp add: within_radius_filter)
  show "within_radius gc origin r [n] \<noteq> [] \<longleftrightarrow> gc origin (lat n, lng n) \<le> r"
    by simp
  show "nearby_filter gc origin all_notes = within_radius gc origin 10 all_notes"
    by (simp add: nearby_filter_def)
qed

theorem within_radius_exact_witness:
  "within_radius flat_km far_place 222 [note_n1, note_n2] = [note_n1, note_n2]
   \<and> within_radius flat_km far_place 221 [note_n1, note_n2] = [note_n2]
   \<and> nearby_filter flat_km far_place [note_n1, note_n2] = [note_n2]"
proof -
  have d1: "flat_km far_place (lat note_n1, lng note_n1) = 222"
    by (simp add: flat_km_def far_place_def note_n1_def)
  have d2: "flat_km far_place (lat note_n2, lng note_n2) = 0"
    by (simp add: flat_km_def far_place_def note_n2_def)
  from within_radius_exact [of flat_km far_place 222 "[note_n1, note_n2]"]
    within_radius_exact [of flat_km far_place 221 "[note_n1, note_n2]"]
    within_radius_exact [of flat_km far_place 10 "[note_n1, note_n2]"]
    within_radius_exact [of flat_km far_place 0 "[note_n1, note_n2]"]
  show ?thesis by (simp add: d1 d2)
qed

subsection \<open>Hashtag search\<close>

lemma hashtag_search_filter:
  "hashtag_search m queries all_notes =
     filter (\<lambda>n. case m of AND \<Rightarrow> list_all (\<lambda>q. q \<in> all_tags_in_note n) queries
                         | OR \<Rightarrow> list_ex (\<lambda>q. q \<in> all_tags_in_note n) queries) all_notes"
  by (induction all_notes) simp_all

lemma list_all_imp_list_ex: "queries \<noteq> [] \<Longrightarrow> list_all P queries \<Longrightarrow> list_ex P queries"
  by (cases queries) simp_all

text \<open>
  C9: for every list of notes and every non-empty list of query tags, the notes found
  by the AND search are among the notes found by the OR search (as sets, and also as
  lists in the order of the corpus). Each note is compared through the union of its own
  hashtags and the hashtags of all its entries.
\<close>

theorem and_search_subset_or_search:
  assumes "queries \<noteq> []"
  shows "set (hashtag_search AND queries all_notes) \<subseteq> set (hashtag_search OR queries all_notes)
       \<and> subseq (hashtag_search AND queries all_notes) (hashtag_search OR queries all_notes)"
proof -
  let ?A = "\<lambda>n. list_all (\<lambda>q. q \<in> all_tags_in_note n) queries"
  let ?O = "\<lambda>n. list_ex (\<lambda>q. q \<in> all_tags_in_note n) queries"
  have imp: "?A n \<Longrightarrow> ?O n" for n
    using assms by (rule list_all_imp_list_ex)
  have "filter ?A all_notes = filter ?A (filter ?O all_notes)"
    using imp by (induction all_notes) auto
  then have "subseq (filter ?A all_notes) (filter ?O all_notes)"
    by (metis subseq_filter_left)
  moreover have "set (filter ?A all_notes) \<subseteq> set (filter ?O all_notes)"
    using imp by auto
  ultimately show ?thesis by (simp add: hashtag_search_filter)
qed

theorem and_search_subset_or_search_witness:
  "[ascii ''#sea'', ascii ''#lunch''] \<noteq> []
   \<and> hashtag_search AND [ascii ''#sea'', ascii ''#lunch''] [note_n1, note_n2] = [note_n2]
   \<and> hashtag_search OR [ascii ''#sea'', ascii ''#lunch''] [note_n1, note_n2] = [note_n1, note_n2]
   \<and> set (hashtag_search AND [ascii ''#sea'', ascii ''#lunch''] [note_n1, note_n2])
       \<subseteq> set (hashtag_search OR [ascii ''#sea'', ascii ''#lunch''] [note_n1, note_n2])"
proof -
  have ne: "[ascii ''#sea'', ascii ''#lunch''] \<noteq> []" by simp
  have a: "hashtag_search AND [ascii ''#sea'', ascii ''#lunch''] [note_n1, note_n2] = [note_n2]"
    by (simp add: all_tags_in_note_def note_n1_def note_n2_def ascii_def)
  have b: "hashtag_search OR [ascii ''#sea'', ascii ''#lunch''] [note_n1, note_n2] = [note_n1, note_n2]"
    by (simp add: all_tags_in_note_def note_n1_def note_n2_def ascii_def)
  from and_search_subset_or_search [OF ne, of "[note_n1, note_n2]"] ne a b
  show ?thesis by blast
qed

subsection \<open>Deleting\<close>

lemma find_note_in_set: "find_note all_notes v = Some n \<Longrightarrow> n \<in> set all_notes \<and> id_is n v"
  unfolding find_note_def by (induction all_notes) (auto split: if_splits)

lemma selected_note_in_set:
  "selected_note all_notes s = Some n \<Longrightarrow> n \<in> set all_notes \<and> id_is n (selected_note_id s)"
  by (auto simp: selected_note_def dest: find_note_in_set split: if_splits)

lemma delete_note_Inr:
  assumes "delete_note gc u checkbox button all_notes s = Inr w"
  shows "\<exists>n. selected_note all_notes s = Some n \<and> creator_id n = user_id u
           \<and> fst w = filter (\<lambda>m. \<not> id_is m (selected_note_id s)) all_notes"
proof (cases "selected_note all_notes s")
  case None
  with assms show ?thesis by (simp add: delete_note_def)
next
  case (Some n)
  with assms have "delete_block u checkbox button n all_notes s = Inr w"
    by (cases "is_viewable gc s n") (simp_all add: delete_note_def)
  then have "creator_id n = user_id u
      \<and> fst w = filter (\<lambda>m. \<not> id_is m (selected_note_id s)) all_notes"
    by (auto simp: delete_block_def split: if_splits)
  with Some show ?thesis by simp
qed

lemma same_id_same_note:
  assumes "distinct (map note_id all_notes)" "n \<in> set all_notes" "m \<in> set all_notes"
    "note_id n = note_id m"
  shows "n = m"
  using assms by (meson distinct_map inj_onD)

text \<open>
  What the guard of line 566 gives: for every note \<open>n\<close> and every requester who is not
  its creator, the delete block of \<open>n\<close> answers \<open>PermissionError\<close>, whatever is ticked
  or pressed, and the stored list and the session stay as they are; so does the whole
  right-hand column when \<open>n\<close> is the selected note. In a store whose ids are distinct,
  whatever the session selects, a delete requested by someone else than the creator of
  \<open>n\<close> leaves \<open>n\<close>, with its entries, in the store.
\<close>

lemma delete_needs_creator:
  assumes "user_id requester \<noteq> creator_id n"
  shows "delete_block requester checkbox button n all_notes s = Inl PermissionError
       \<and> after (delete_block requester checkbox button n all_notes s) (all_notes, s) = (all_notes, s)
       \<and> (selected_note all_notes s = Some n \<longrightarrow>
            after (delete_note gc requester checkbox button all_notes s) (all_notes, s) = (all_notes, s))
       \<and> (distinct (map note_id all_notes) \<and> n \<in> set all_notes \<longrightarrow>
            n \<in> set (fst (after (delete_note gc requester checkbox button all_notes s) (all_notes, s))))"
proof (intro conjI impI)
  show blk: "delete_block requester checkbox button n all_notes s = Inl PermissionError"
    using assms by (simp add: delete_block_def)
  then show "after (delete_block requester checkbox button n all_notes s) (all_notes, s) = (all_notes, s)"
    by (simp add: after_def)
  show "after (delete_note gc requester checkbox button all_notes s) (all_notes, s) = (all_notes, s)"
    if "selected_note all_notes s = Some n"
    using that blk by (cases "is_viewable gc s n") (simp_all add: delete_note_def after_def)
  show "n \<in> set (fst (after (delete_note gc requester checkbox button all_notes s) (all_notes, s)))"
    if h: "distinct (map note_id all_notes) \<and> n \<in> set all_notes"
  proof (cases "delete_note gc requester checkbox button all_notes s")
    case (Inl e)
    with h show ?thesis by (simp add: after_def)
  next
    case (Inr w)
    from delete_note_Inr [OF Inr] obtain m where m: "selected_note all_notes s = Some m"
      "creator_id m = user_id requester"
      "fst w = filter (\<lambda>k. \<not> id_is k (selected_note_id s)) all_notes"
      by blast
    from selected_note_in_set [OF m(1)] have min: "m \<in> set all_notes"
      and mid: "id_is m (selected_note_id s)" by simp_all
    have "\<not> id_is n (selected_note_id s)"
    proof
      assume "id_is n (selected_note_id s)"
      with mid have "note_id n = note_id m" by (simp add: id_is_def)
      with h min have "n = m" by (blast intro: same_id_same_note)
      with m(2) assms show False by simp
    qed
    with h m(3) Inr show ?thesis by (simp add: after_def)
  qed
qed

lemma delete_needs_creator_example:
  "user_id bob \<noteq> creator_id note_n1
   \<and> delete_block bob True True note_n1 [note_n1, note_n2] (writing (Some near_place) None)
       = Inl PermissionError
   \<and> delete_note flat_km bob True True [note_n1, note_n2] (writing (Some near_place) None)
       = Inl PermissionError
   \<and> note_n1 \<in> set (fst (after
         (delete_note flat_km bob True True [note_n1, note_n2] (writing (Some near_place) None))
         ([note_n1, note_n2], writing (Some near_place) None)))"
proof -
  let ?s = "writing (Some near_place) None"
  have ne: "user_id bob \<noteq> creator_id note_n1"
    by (simp add: bob_def note_n1_def ascii_def)
  have sel: "selected_note [note_n1, note_n2] ?s = Some note_n1"
    by (simp add: selected_note_def find_note_def id_is_def slot_truthy_def writing_def
        init_session_def note_n1_def ascii_def)
  have view: "is_viewable flat_km ?s note_n1 = Permit"
    by (simp add: is_viewable_def writing_def init_session_def flat_km_def near_place_def
        note_n1_def)
  have d: "distinct (map note_id [note_n1, note_n2]) \<and> note_n1 \<in> set [note_n1, note_n2]"
    by (simp add: note_n1_def note_n2_def ascii_def)
  note inst = delete_needs_creator [OF ne, of True True "[note_n1, note_n2]" ?s flat_km]
  from inst have blk: "delete_block bob True True note_n1 [note_n1, note_n2] ?s = Inl PermissionError"
    by blast
  from sel view blk have dn: "delete_note flat_km bob True True [note_n1, note_n2] ?s = Inl PermissionError"
    by (simp add: delete_note_def)
  from inst d have "note_n1 \<in> set (fst (after
         (delete_note flat_km bob True True [note_n1, note_n2] ?s) ([note_n1, note_n2], ?s)))"
    by blast
  with ne blk dn show ?thesis by blast
qed

text \<open>The creator, with the note in view, the box ticked and the button pressed, does delete.\<close>

lemma creator_deletes:
  "delete_note flat_km alice True True [note_n1, note_n2] (writing (Some near_place) None)
     = Inr ([note_n2], (writing (Some near_place) None)\<lparr>selected_note_id := None,
          nearby_notes := [], search_results := None, recommended_note_id := None\<rparr>)"
  by (simp add: delete_note_def delete_block_def selected_note_def find_note_def id_is_def
      slot_truthy_def is_viewable_def writing_def init_session_def flat_km_def near_place_def
      note_n1_def note_n2_def alice_def ascii_def)

subsection \<open>Placing and seeding\<close>

lemma seed_places_distinct:
  "distinct (map note_id (fst st)) \<and> note_id ` set (fst st) \<subseteq> snd st \<Longrightarrow>
   distinct (map note_id (fst (seed_places now t ps st)))
   \<and> note_id ` set (fst (seed_places now t ps st)) \<subseteq> snd (seed_places now t ps st)"
proof (induction ps arbitrary: st)
  case Nil
  then show ?case by simp
next
  case (Cons p ps)
  obtain initial_notes processed where st: "st = (initial_notes, processed)"
    by (cases st)
  show ?case
  proof (cases "place_id p")
    case None
    with Cons st show ?thesis by simp
  next
    case (Some pid)
    show ?thesis
    proof (cases "pid \<noteq> [] \<and> pid \<notin> processed")
      case True
      have "distinct (map note_id (initial_notes @ [seed_note now t pid p]))
          \<and> note_id ` set (initial_notes @ [seed_note now t pid p]) \<subseteq> insert pid processed"
        using Cons.prems True st by (auto simp: seed_note_def)
      then show ?thesis
        using Cons.IH [of "(initial_notes @ [seed_note now t pid p], insert pid processed)"]
          Some True st by simp
    next
      case False
      with Cons Some st show ?thesis by auto
    qed
  qed
qed

lemma seed_types_distinct:
  "distinct (map note_id (fst st)) \<and> note_id ` set (fst st) \<subseteq> snd st \<Longrightarrow>
   distinct (map note_id (fst (seed_types now places_nearby ts st)))
   \<and> note_id ` set (fst (seed_types now places_nearby ts st))
       \<subseteq> snd (seed_types now places_nearby ts st)"
proof (induction ts arbitrary: st)
  case Nil
  then show ?case by simp
next
  case (Cons t ts)
  from Cons.IH [OF seed_places_distinct [OF Cons.prems]] show ?case by simp
qed

text \<open>
  C2, as the claim states it, fails: two submissions of the placement form at the same
  clock reading both succeed, the second on a store that already holds the id, and the
  store then has two notes with one id.
\<close>

theorem create_twice_same_id_succeeds:
  "popup_note_form (ascii ''1700000000.5'') alice (ascii ''Pier'') [] [] placing
     = Inr ([first_note], placing\<lparr>clicked_location := None\<rparr>)
   \<and> popup_note_form (ascii ''1700000000.5'') bob (ascii ''Cafe'') [] [first_note] placing
     = Inr ([first_note, second_note], placing\<lparr>clicked_location := None\<rparr>)
   \<and> note_id first_note = note_id second_note"
  by (simp add: popup_note_form_def parse_hashtags_def placing_def init_session_def
      first_note_def second_note_def alice_def bob_def ascii_def)

text \<open>
  C2, amended: placing a note compares no ids and has no \<open>DuplicateIdError\<close>. Whenever the
  form is shown (placement mode, a clicked location) and the title is not empty, it
  succeeds, also when the id is already in the store, and appends one note with that id,
  the user as creator and no entries, so that the store grows by exactly one; its only
  refusals are the form not being shown and an empty title. Seeding is what keeps ids
  apart: the notes of one seeding run have pairwise distinct ids.
\<close>

theorem create_always_appends:
  assumes "main_menu s = NoteOps" and "mode s = PlaceMode" and "clicked_location s = Some c"
    and "note_title \<noteq> []"
  shows "(\<exists>n. popup_note_form now_id u note_title tags all_notes s
              = Inr (all_notes @ [n], s\<lparr>clicked_location := None\<rparr>)
            \<and> note_id n = now_id \<and> creator_id n = user_id u \<and> entries n = []
            \<and> (lat n, lng n) = c)
       \<and> (\<forall>s' title' e. popup_note_form now_id u title' tags all_notes s' = Inl e
            \<longrightarrow> e = NotShown \<or> e = MalformedInput)
       \<and> distinct (map note_id (fst (seed_types now places_nearby ts ([], {}))))"
proof (intro conjI allI impI)
  show "\<exists>n. popup_note_form now_id u note_title tags all_notes s
              = Inr (all_notes @ [n], s\<lparr>clicked_location := None\<rparr>)
            \<and> note_id n = now_id \<and> creator_id n = user_id u \<and> entries n = []
            \<and> (lat n, lng n) = c"
    using assms by (simp add: popup_note_form_def)
  show "e = NotShown \<or> e = MalformedInput"
    if "popup_note_form now_id u title' tags all_notes s' = Inl e" for s' title' e
    using that by (auto simp: popup_note_form_def split: if_splits option.splits)
  show "distinct (map note_id (fst (seed_types now places_nearby ts ([], {}))))"
    using seed_types_distinct [of "([], {})" now places_nearby ts] by simp
qed

theorem create_always_appends_witness:
  "main_menu placing = NoteOps \<and> mode placing = PlaceMode
   \<and> clicked_location placing = Some (35, 139) \<and> ascii ''Cafe'' \<noteq> []
   \<and> (\<exists>n. popup_note_form (ascii ''1700000000.5'') bob (ascii ''Cafe'') [] [first_note] placing
              = Inr ([first_note] @ [n], placing\<lparr>clicked_location := None\<rparr>)
          \<and> note_id n = note_id first_note)"
proof -
  have a: "main_menu placing = NoteOps" "mode placing = PlaceMode"
    "clicked_location placing = Some (35, 139)"
    by (simp_all add: placing_def init_session_def)
  have b: "ascii ''Cafe'' \<noteq> []" by (simp add: ascii_def)
  have c: "note_id first_note = ascii ''1700000000.5''" by (simp add: first_note_def)
  from create_always_appends [OF a b, of "ascii ''1700000000.5''" bob "[]" "[first_note]"]
  have "\<exists>n. popup_note_form (ascii ''1700000000.5'') bob (ascii ''Cafe'') [] [first_note] placing
              = Inr ([first_note] @ [n], placing\<lparr>clicked_location := None\<rparr>)
          \<and> note_id n = ascii ''1700000000.5''"
    by blast
  with a b c show ?thesis by simp
qed

subsection \<open>The search for the JSON text\<close>

lemma strip_prefix_Some_iff: "strip_prefix p s = Some r \<longleftrightarrow> s = p @ r"
  by (induction p s rule: strip_prefix.induct) auto

lemma dropWhile_spaces:
  "list_all isspace w \<Longrightarrow> \<not> isspace x \<Longrightarrow> dropWhile isspace (w @ x # r) = x # r"
  by (induction w) simp_all

lemma split_spaces: "\<exists>w. list_all isspace w \<and> s = w @ dropWhile isspace s"
proof (intro exI conjI)
  show "list_all isspace (takeWhile isspace s)"
    by (induction s) simp_all
  show "s = takeWhile isspace s @ dropWhile isspace s"
    by simp
qed

lemma not_space_quote: "\<not> isspace 34" and not_space_brace: "\<not> isspace 125"
  by (simp_all add: isspace_def)

lemma lazy_tail_sound:
  "lazy_tail s = Some rest \<Longrightarrow>
     \<exists>inner w3. list_all isspace w3 \<and> s = inner @ 34 # w3 @ 125 # rest"
proof (induction s)
  case Nil
  then show ?case by simp
next
  case (Cons c cs)
  show ?case
  proof (cases "c = 34 \<and> strip_prefix [125] (dropWhile isspace cs) = Some rest")
    case True
    then have d: "dropWhile isspace cs = 125 # rest"
      by (simp add: strip_prefix_Some_iff)
    from split_spaces [of cs] obtain w where "list_all isspace w" "cs = w @ dropWhile isspace cs"
      by blast
    with d True have "list_all isspace w \<and> c # cs = [] @ 34 # w @ 125 # rest"
      by simp
    then show ?thesis by blast
  next
    case False
    with Cons.prems have "lazy_tail cs = Some rest"
      by (auto split: if_splits option.splits)
    from Cons.IH [OF this] obtain inner w3 where
      "list_all isspace w3" "cs = inner @ 34 # w3 @ 125 # rest" by blast
    then have "list_all isspace w3 \<and> c # cs = (c # inner) @ 34 # w3 @ 125 # rest"
      by simp
    then show ?thesis by blast
  qed
qed

lemma lazy_tail_complete:
  "list_all isspace w3 \<Longrightarrow> lazy_tail (inner @ 34 # w3 @ 125 # rest) \<noteq> None"
proof (induction inner)
  case Nil
  then show ?case
    by (simp add: dropWhile_spaces not_space_brace)
next
  case (Cons c inner)
  then show ?case by (auto split: option.splits)
qed

lemma match_here_sound:
  assumes "match_here s = Some rest"
  shows "\<exists>m. s = m @ rest \<and> matches_pattern m"
proof -
  from assms obtain r1 r2 r3 where
    r1: "strip_prefix [123] s = Some r1" and
    r2: "strip_prefix key_token (dropWhile isspace r1) = Some r2" and
    r3: "strip_prefix [34] (dropWhile isspace r2) = Some r3" and
    lt: "lazy_tail r3 = Some rest"
    by (auto simp: match_here_def Option.bind_eq_Some_conv)
  from split_spaces [of r1] obtain w1 where w1: "list_all isspace w1" "r1 = w1 @ dropWhile isspace r1"
    by blast
  from split_spaces [of r2] obtain w2 where w2: "list_all isspace w2" "r2 = w2 @ dropWhile isspace r2"
    by blast
  from lazy_tail_sound [OF lt] obtain inner w3 where
    w3: "list_all isspace w3" "r3 = inner @ 34 # w3 @ 125 # rest" by blast
  from r1 have "s = 123 # r1" by (simp add: strip_prefix_Some_iff)
  moreover from r2 w1 have "r1 = w1 @ key_token @ r2" by (simp add: strip_prefix_Some_iff)
  moreover from r3 w2 have "r2 = w2 @ 34 # r3" by (simp add: strip_prefix_Some_iff)
  ultimately have "s = (123 # w1 @ key_token @ w2 @ 34 # inner @ 34 # w3 @ [125]) @ rest"
    using w3 by simp
  moreover have "matches_pattern (123 # w1 @ key_token @ w2 @ 34 # inner @ 34 # w3 @ [125])"
    unfolding matches_pattern_def using w1(1) w2(1) w3(1) by blast
  ultimately show ?thesis by blast
qed

lemma match_here_complete:
  assumes "matches_pattern m"
  shows "match_here (m @ post) \<noteq> None"
proof -
  from assms obtain w1 w2 inner w3 where
    w: "list_all isspace w1" "list_all isspace w2" "list_all isspace w3" and
    m: "m = 123 # w1 @ key_token @ w2 @ 34 # inner @ 34 # w3 @ [125]"
    unfolding matches_pattern_def by blast
  let ?r3 = "inner @ 34 # w3 @ 125 # post"
  let ?r2 = "w2 @ 34 # ?r3"
  have k: "key_token @ ?r2 = 34 # (key_name @ [34, 58]) @ ?r2"
    by (simp add: key_token_def)
  have 1: "strip_prefix [123] (m @ post) = Some (w1 @ key_token @ ?r2)"
    by (simp add: strip_prefix_Some_iff m)
  have 2: "dropWhile isspace (w1 @ key_token @ ?r2) = key_token @ ?r2"
    unfolding k using w(1) by (simp add: dropWhile_spaces not_space_quote)
  have 3: "strip_prefix key_token (key_token @ ?r2) = Some ?r2"
    by (simp add: strip_prefix_Some_iff)
  have 4: "dropWhile isspace ?r2 = 34 # ?r3"
    using w(2) by (simp add: dropWhile_spaces not_space_quote)
  have 5: "strip_prefix [34] (34 # ?r3) = Some ?r3"
    by (simp add: strip_prefix_Some_iff)
  have "match_here (m @ post) = lazy_tail ?r3"
    unfolding match_here_def 1 Option.bind.simps 2 3 4 5 ..
  with lazy_tail_complete [OF w(3)] show ?thesis by simp
qed

lemma re_search_sound:
  "re_search s = Some j \<Longrightarrow> \<exists>pre post. s = pre @ j @ post \<and> matches_pattern j"
proof (induction s)
  case Nil
  then show ?case by simp
next
  case (Cons c cs)
  show ?case
  proof (cases "match_here (c # cs)")
    case None
    with Cons.prems have "re_search cs = Some j" by simp
    from Cons.IH [OF this] obtain pre post where "cs = pre @ j @ post" "matches_pattern j"
      by blast
    then have "c # cs = (c # pre) @ j @ post \<and> matches_pattern j" by simp
    then show ?thesis by blast
  next
    case (Some rest)
    from match_here_sound [OF Some] obtain m where m: "c # cs = m @ rest" "matches_pattern m"
      by blast
    from Some Cons.prems have "j = take (length (c # cs) - length rest) (c # cs)" by simp
    with m(1) have "j = m" by simp
    with m have "c # cs = [] @ j @ rest \<and> matches_pattern j" by simp
    then show ?thesis by blast
  qed
qed

lemma re_search_complete:
  "matches_pattern m \<Longrightarrow> re_search (pre @ m @ post) \<noteq> None"
proof (induction pre)
  case Nil
  from match_here_complete [OF Nil, of post] obtain rest where r: "match_here (m @ post) = Some rest"
    by blast
  from Nil have "m \<noteq> []" by (auto simp: matches_pattern_def)
  then obtain c cs where "m @ post = c # cs" by (cases m) simp_all
  with r show ?case by simp
next
  case (Cons c pre)
  then show ?case by (simp split: option.splits)
qed

text \<open>The search finds nothing exactly when no substring of the reply matches the pattern.\<close>

lemma re_search_None_iff: "re_search msg = None \<longleftrightarrow> \<not> has_match msg"
proof
  assume n: "re_search msg = None"
  show "\<not> has_match msg"
  proof
    assume "has_match msg"
    then obtain pre m post where "msg = pre @ m @ post" "matches_pattern m"
      unfolding has_match_def by blast
    with re_search_complete [of m pre post] n show False by simp
  qed
next
  assume n: "\<not> has_match msg"
  show "re_search msg = None"
  proof (cases "re_search msg")
    case None
    then show ?thesis .
  next
    case (Some j)
    from re_search_sound [OF Some] n show ?thesis
      unfolding has_match_def by blast
  qed
qed

subsection \<open>Parsing the reply\<close>

lemma re_search_reply_abc123: "re_search reply_abc123 = Some json_abc123"
  by (simp add: reply_abc123_def json_abc123_def ascii_def match_here_def key_token_def
      key_name_def isspace_def)

lemma remainder_reply_abc123: "strip (remove_all json_abc123 reply_abc123) = ascii ''Here you go!''"
  by (simp add: strip_def remove_all_def reply_abc123_def json_abc123_def ascii_def isspace_def)

text \<open>
  C7: in the reply \<open>Here you go! {"recommended_note_id": "abc123"}\<close> the search finds the
  JSON text, what is left of the reply after removing it and trimming is
  \<open>Here you go!\<close>, and, \<open>json.loads\<close> decoding the JSON text to its one member, the id
  \<open>abc123\<close> is extracted: the remainder becomes an assistant turn and the id is installed.
\<close>

theorem reply_abc123_extraction:
  assumes "json_loads json_abc123 = Some [(key_name, JStr (ascii ''abc123''))]"
  shows "re_search reply_abc123 = Some json_abc123
       \<and> strip (remove_all json_abc123 reply_abc123) = ascii ''Here you go!''
       \<and> process_reply json_loads all_notes reply_abc123 s
           = (Resolved, install_recommendation (JStr (ascii ''abc123'')) all_notes
                (say Assistant (ascii ''Here you go!'') s))"
proof -
  have "ascii ''Here you go!'' \<noteq> []" "truthy (JStr (ascii ''abc123''))"
    by (simp_all add: ascii_def)
  with assms show ?thesis
    by (simp add: process_reply_def re_search_reply_abc123 remainder_reply_abc123)
qed

theorem reply_abc123_extraction_witness:
  "loads_example json_abc123 = Some [(key_name, JStr (ascii ''abc123''))]
   \<and> process_reply loads_example [note_n1] reply_abc123 chatting
       = (Resolved, chatting\<lparr> chat_messages := [(Assistant, greeting), (Assistant, ascii ''Here you go!'')],
            recommended_note_id := Some (JStr (ascii ''abc123'')),
            selected_note_id := Some (JStr (ascii ''abc123'')),
            chat_started := False, switch_to_note_mode := True \<rparr>)"
proof -
  have h: "loads_example json_abc123 = Some [(key_name, JStr (ascii ''abc123''))]"
    by (simp add: loads_example_def)
  have f: "find_note [note_n1] (Some (JStr (ascii ''abc123''))) = None"
    by (simp add: find_note_def id_is_def note_n1_def ascii_def)
  from reply_abc123_extraction [where json_loads = loads_example and all_notes = "[note_n1]"
      and s = chatting, OF h] h f show ?thesis
    by (simp add: install_recommendation_def say_def chatting_def)
qed

text \<open>
  C8: for every reply of which no substring matches the pattern, the whole reply is
  appended as an assistant turn and the outcome is \<open>AwaitingUserUtterance\<close>; an utterance
  answered by such a reply changes the transcript and nothing else in the session, so
  the consultation stays open and no recommendation is set.
\<close>

theorem no_match_continues:
  assumes "\<not> has_match msg"
  shows "process_reply json_loads all_notes msg s = (AwaitingUserUtterance, say Assistant msg s)
       \<and> (main_menu s = Search \<and> all_notes \<noteq> [] \<and> chat_started s \<and> prompt \<noteq> [] \<longrightarrow>
            chat_input json_loads all_notes prompt (Some msg) s
              = (AwaitingUserUtterance,
                 s\<lparr>chat_messages := chat_messages s @ [(User, prompt), (Assistant, msg)]\<rparr>))"
proof -
  from assms have "re_search msg = None" by (simp add: re_search_None_iff)
  then show ?thesis by (simp add: process_reply_def chat_input_def say_def)
qed

theorem no_match_continues_witness:
  "\<not> has_match (ascii ''Indoors or outdoors?'')
   \<and> chat_input loads_example [note_n1] (ascii ''quiet'') (Some (ascii ''Indoors or outdoors?'')) chatting
       = (AwaitingUserUtterance,
          chatting\<lparr>chat_messages := [(Assistant, greeting), (User, ascii ''quiet''),
             (Assistant, ascii ''Indoors or outdoors?'')]\<rparr>)
   \<and> chat_started (snd (chat_input loads_example [note_n1] (ascii ''quiet'')
         (Some (ascii ''Indoors or outdoors?'')) chatting))
   \<and> recommended_note_id (snd (chat_input loads_example [note_n1] (ascii ''quiet'')
         (Some (ascii ''Indoors or outdoors?'')) chatting)) = None"
proof -
  have "re_search (ascii ''Indoors or outdoors?'') = None"
    by (simp add: ascii_def match_here_def)
  then have h: "\<not> has_match (ascii ''Indoors or outdoors?'')"
    by (simp add: re_search_None_iff)
  have p: "main_menu chatting = Search \<and> [note_n1] \<noteq> [] \<and> chat_started chatting \<and> ascii ''quiet'' \<noteq> []"
    by (simp add: chatting_def init_session_def ascii_def)
  have c: "chat_messages chatting = [(Assistant, greeting)]" "recommended_note_id chatting = None"
    by (simp_all add: chatting_def init_session_def)
  from no_match_continues [where json_loads = loads_example and all_notes = "[note_n1]"
      and s = chatting and prompt = "ascii ''quiet''", OF h] p
  have "chat_input loads_example [note_n1] (ascii ''quiet'') (Some (ascii ''Indoors or outdoors?'')) chatting
       = (AwaitingUserUtterance,
          chatting\<lparr>chat_messages := chat_messages chatting @ [(User, ascii ''quiet''),
             (Assistant, ascii ''Indoors or outdoors?'')]\<rparr>)"
    by blast
  with h c p show ?thesis by simp
qed

text \<open>
  C4, as the claim states it, fails: the reply recommends \<open>zzz\<close>, no stored note has that
  id, and the id is installed as the recommendation and as the selection of the session.
\<close>

theorem unknown_id_is_installed:
  "find_note [note_n1] (Some (JStr (ascii ''zzz''))) = None
   \<and> chat_input loads_example [note_n1] (ascii ''quiet'') (Some json_zzz) chatting
       = (Resolved, chatting\<lparr> chat_messages := [(Assistant, greeting), (User, ascii ''quiet'')],
            recommended_note_id := Some (JStr (ascii ''zzz'')),
            selected_note_id := Some (JStr (ascii ''zzz'')),
            chat_started := False, switch_to_note_mode := True \<rparr>)"
proof -
  have f: "find_note [note_n1] (Some (JStr (ascii ''zzz''))) = None"
    by (simp add: find_note_def id_is_def note_n1_def ascii_def)
  have r: "re_search json_zzz = Some json_zzz"
    by (simp add: json_zzz_def ascii_def match_here_def key_token_def key_name_def isspace_def)
  have e: "strip (remove_all json_zzz json_zzz) = []"
    by (simp add: strip_def remove_all_def json_zzz_def ascii_def)
  have l: "loads_example json_zzz = Some [(key_name, JStr (ascii ''zzz''))]"
    by (simp add: loads_example_def json_zzz_def json_abc123_def ascii_def)
  have t: "truthy (JStr (ascii ''zzz''))" "ascii ''quiet'' \<noteq> []"
    by (simp_all add: ascii_def)
  show ?thesis
    using f r e l t
    by (simp add: chat_input_def process_reply_def install_recommendation_def say_def
        chatting_def init_session_def)
qed

text \<open>
  C4, amended: when the extracted id is truthy and no stored note has it, the program
  does not crash and does not fail either: the resolution completes as for any id. The
  id is installed as the recommendation and as the selection of the session, the
  consultation is closed and the switch to the write mode is requested; only the move
  of the map is left out. In the next run no note answers to the selection, so none is
  shown.
\<close>

theorem unknown_id_resolution:
  assumes "re_search msg = Some j" and "json_loads j = Some reco_data"
    and "map_of reco_data key_name = Some reco_id" and "truthy reco_id"
    and "find_note all_notes (Some reco_id) = None"
  shows "fst (process_reply json_loads all_notes msg s) = Resolved
       \<and> recommended_note_id (snd (process_reply json_loads all_notes msg s)) = Some reco_id
       \<and> selected_note_id (snd (process_reply json_loads all_notes msg s)) = Some reco_id
       \<and> \<not> chat_started (snd (process_reply json_loads all_notes msg s))
       \<and> switch_to_note_mode (snd (process_reply json_loads all_notes msg s))
       \<and> center (snd (process_reply json_loads all_notes msg s)) = center s
       \<and> zoom (snd (process_reply json_loads all_notes msg s)) = zoom s
       \<and> selected_note all_notes (apply_switch (snd (process_reply json_loads all_notes msg s))) = None"
  using assms
  by (simp add: process_reply_def install_recommendation_def say_def Let_def selected_note_def
      apply_switch_def)

theorem unknown_id_resolution_witness:
  "re_search json_zzz = Some json_zzz
   \<and> loads_example json_zzz = Some [(key_name, JStr (ascii ''zzz''))]
   \<and> find_note [note_n1] (Some (JStr (ascii ''zzz''))) = None
   \<and> fst (process_reply loads_example [note_n1] json_zzz chatting) = Resolved
   \<and> recommended_note_id (snd (process_reply loads_example [note_n1] json_zzz chatting))
       = Some (JStr (ascii ''zzz''))
   \<and> selected_note_id (snd (process_reply loads_example [note_n1] json_zzz chatting))
       = Some (JStr (ascii ''zzz''))"
proof -
  have f: "find_note [note_n1] (Some (JStr (ascii ''zzz''))) = None"
    by (simp add: find_note_def id_is_def note_n1_def ascii_def)
  have r: "re_search json_zzz = Some json_zzz"
    by (simp add: json_zzz_def ascii_def match_here_def key_token_def key_name_def isspace_def)
  have l: "loads_example json_zzz = Some [(key_name, JStr (ascii ''zzz''))]"
    by (simp add: loads_example_def json_zzz_def json_abc123_def ascii_def)
  have m: "map_of [(key_name, JStr (ascii ''zzz''))] key_name = Some (JStr (ascii ''zzz''))"
    by simp
  have t: "truthy (JStr (ascii ''zzz''))" by (simp add: ascii_def)
  from unknown_id_resolution [where json_loads = loads_example and msg = json_zzz
      and j = json_zzz and all_notes = "[note_n1]" and s = chatting, OF r l m t f] r l f
  show ?thesis by blast
qed

subsection \<open>The recommendation and the selection\<close>

lemma select_note_slots:
  "recommended_note_id (select_note sel all_notes s) = None
   \<or> (recommended_note_id (select_note sel all_notes s) = recommended_note_id s
      \<and> selected_note_id (select_note sel all_notes s) = selected_note_id s)"
  by (simp add: select_note_def Let_def split: option.splits)

lemma delete_note_slots:
  "delete_note gc u checkbox button all_notes s = Inr w \<Longrightarrow>
     recommended_note_id (snd w) = None \<and> selected_note_id (snd w) = None"
proof -
  assume a: "delete_note gc u checkbox button all_notes s = Inr w"
  then obtain n where "delete_block u checkbox button n all_notes s = Inr w"
    by (auto simp: delete_note_def split: option.splits gate.splits)
  then show ?thesis
    by (auto simp: delete_block_def split: if_splits)
qed

lemma install_recommendation_slots:
  "recommended_note_id (install_recommendation reco_id all_notes s) = Some reco_id
   \<and> selected_note_id (install_recommendation reco_id all_notes s) = Some reco_id"
  by (simp add: install_recommendation_def Let_def split: option.splits)

lemma process_reply_slots:
  "(recommended_note_id (snd (process_reply json_loads all_notes msg s)) = recommended_note_id s
      \<and> selected_note_id (snd (process_reply json_loads all_notes msg s)) = selected_note_id s)
   \<or> (fst (process_reply json_loads all_notes msg s) = Resolved
      \<and> recommended_note_id (snd (process_reply json_loads all_notes msg s))
          = selected_note_id (snd (process_reply json_loads all_notes msg s)))"
  by (simp add: process_reply_def Let_def say_def install_recommendation_slots
      split: option.splits)

lemma chat_input_slots:
  "(recommended_note_id (snd (chat_input json_loads all_notes prompt reply s)) = recommended_note_id s
      \<and> selected_note_id (snd (chat_input json_loads all_notes prompt reply s)) = selected_note_id s)
   \<or> (fst (chat_input json_loads all_notes prompt reply s) = Resolved
      \<and> recommended_note_id (snd (chat_input json_loads all_notes prompt reply s))
          = selected_note_id (snd (chat_input json_loads all_notes prompt reply s)))"
proof (cases "main_menu s = Search \<and> all_notes \<noteq> [] \<and> chat_started s \<and> prompt \<noteq> []")
  case False
  then show ?thesis by (auto simp: chat_input_def)
next
  case True
  show ?thesis
  proof (cases reply)
    case None
    with True show ?thesis by (simp add: chat_input_def say_def)
  next
    case (Some msg)
    with True process_reply_slots [of json_loads all_notes msg "say User prompt s"]
    show ?thesis by (simp add: chat_input_def say_def)
  qed
qed

text \<open>
  Every widget but the chat input either clears the recommendation or leaves both slots
  as they are.
\<close>

lemma handle_slots:
  assumes "\<forall>p r. a \<noteq> Utter p r"
  shows "recommended_note_id (snd (handle gc json_loads u a (all_notes, s))) = None
       \<or> (recommended_note_id (snd (handle gc json_loads u a (all_notes, s))) = recommended_note_id s
          \<and> selected_note_id (snd (handle gc json_loads u a (all_notes, s))) = selected_note_id s)"
proof (cases a)
  case (SelectBox sel)
  with select_note_slots [of sel all_notes s] show ?thesis by (simp add: handle_def)
next
  case (Delete checkbox button)
  show ?thesis
  proof (cases "delete_note gc u checkbox button all_notes s")
    case (Inl e)
    with Delete show ?thesis by (simp add: handle_def after_def)
  next
    case (Inr w)
    with Delete delete_note_slots [OF Inr] show ?thesis by (simp add: handle_def after_def)
  qed
next
  case (Utter p r)
  with assms show ?thesis by simp
next
  case (PlaceNote now_id note_title note_hashtags)
  then show ?thesis
    by (auto simp: handle_def after_def popup_note_form_def split: option.splits)
next
  case (Post post_time text_input uploaded_file entry_tags)
  then show ?thesis by (simp add: handle_def split: sum.splits)
qed (simp_all add: handle_def on_error_keep_def search_hashtag_btn_def start_chat_btn_def
      stop_chat_btn_def login_session_def init_session_def)

lemma handle_inv:
  assumes "recommended_note_id s = None \<or> recommended_note_id s = selected_note_id s"
  shows "recommended_note_id (snd (handle gc json_loads u a (all_notes, s))) = None
       \<or> recommended_note_id (snd (handle gc json_loads u a (all_notes, s)))
          = selected_note_id (snd (handle gc json_loads u a (all_notes, s)))"
proof (cases "\<forall>p r. a \<noteq> Utter p r")
  case True
  from handle_slots [OF True, of gc json_loads u all_notes s] assms show ?thesis by auto
next
  case False
  then obtain p r where "a = Utter p r" by blast
  with chat_input_slots [of json_loads all_notes p r s] assms show ?thesis
    by (auto simp: handle_def)
qed

lemma pre_slots:
  "recommended_note_id (refresh_nearby gc all_notes (sample_location location (apply_switch s)))
     = recommended_note_id s
   \<and> selected_note_id (refresh_nearby gc all_notes (sample_location location (apply_switch s)))
     = selected_note_id s"
  by (simp add: refresh_nearby_def sample_location_def apply_switch_def split: option.splits)

lemma pre_slots2:
  "recommended_note_id (sample_location location (apply_switch s)) = recommended_note_id s
   \<and> selected_note_id (sample_location location (apply_switch s)) = selected_note_id s"
  by (simp add: sample_location_def apply_switch_def split: option.splits)

lemma script_run_slots:
  assumes "\<forall>p r. a \<noteq> Utter p r"
  shows "recommended_note_id (snd (script_run gc json_loads u (location, seed, a) (all_notes, s))) = None
       \<or> (recommended_note_id (snd (script_run gc json_loads u (location, seed, a) (all_notes, s)))
            = recommended_note_id s
          \<and> selected_note_id (snd (script_run gc json_loads u (location, seed, a) (all_notes, s)))
            = selected_note_id s)"
proof -
  obtain now places_nearby where seed: "seed = (now, places_nearby)" by (cases seed)
  let ?s = "sample_location location (apply_switch s)"
  from handle_slots [OF assms, of gc json_loads u all_notes "refresh_nearby gc all_notes ?s"]
  show ?thesis
    using pre_slots [of gc all_notes location s] pre_slots2 [of location s]
    by (auto simp: script_run_def seed Let_def)
qed

lemma script_run_inv:
  assumes "recommended_note_id s = None \<or> recommended_note_id s = selected_note_id s"
  shows "recommended_note_id (snd (script_run gc json_loads u inp (all_notes, s))) = None
       \<or> recommended_note_id (snd (script_run gc json_loads u inp (all_notes, s)))
          = selected_note_id (snd (script_run gc json_loads u inp (all_notes, s)))"
proof -
  obtain location now places_nearby a where inp: "inp = (location, (now, places_nearby), a)"
    by (cases inp) auto
  let ?s = "sample_location location (apply_switch s)"
  from handle_inv [of "refresh_nearby gc all_notes ?s" gc json_loads u a all_notes]
  show ?thesis
    using assms pre_slots [of gc all_notes location s] pre_slots2 [of location s]
    by (auto simp: script_run_def inp Let_def)
qed

lemma session_runs_inv:
  "recommended_note_id (snd w) = None \<or> recommended_note_id (snd w) = selected_note_id (snd w) \<Longrightarrow>
   recommended_note_id (snd (session_runs gc json_loads u inps w)) = None
   \<or> recommended_note_id (snd (session_runs gc json_loads u inps w))
      = selected_note_id (snd (session_runs gc json_loads u inps w))"
proof (induction inps arbitrary: w)
  case Nil
  then show ?case by (simp add: session_runs_def)
next
  case (Cons inp inps)
  obtain all_notes s where w: "w = (all_notes, s)" by (cases w)
  from Cons.prems w script_run_inv [of s gc json_loads u inp all_notes]
  have "recommended_note_id (snd (script_run gc json_loads u inp w)) = None
      \<or> recommended_note_id (snd (script_run gc json_loads u inp w))
         = selected_note_id (snd (script_run gc json_loads u inp w))"
    by simp
  from Cons.IH [OF this] show ?case by (simp add: session_runs_def)
qed

subsection \<open>Before the first location\<close>

lemma select_note_location: "user_location (select_note sel all_notes s) = user_location s"
  by (simp add: select_note_def Let_def split: option.splits)

lemma process_reply_location:
  "user_location (snd (process_reply json_loads all_notes msg s)) = user_location s"
  by (simp add: process_reply_def install_recommendation_def say_def Let_def split: option.splits)

lemma chat_input_location:
  "user_location (snd (chat_input json_loads all_notes prompt reply s)) = user_location s"
  by (simp add: chat_input_def process_reply_location say_def split: option.splits)

lemma delete_note_location:
  "user_location (snd (after (delete_note gc u checkbox button all_notes s) (all_notes, s)))
     = user_location s"
  by (simp add: after_def delete_note_def delete_block_def split: option.splits gate.splits)

lemma popup_note_form_location:
  "user_location (snd (after (popup_note_form now_id u note_title tags all_notes s) (all_notes, s)))
     = user_location s"
  by (simp add: after_def popup_note_form_def split: option.splits)

text \<open>A widget leaves the stored location alone, or is the logout.\<close>

lemma handle_location:
  "snd (handle gc json_loads u a (all_notes, s)) = login_session
   \<or> user_location (snd (handle gc json_loads u a (all_notes, s))) = user_location s"
proof (cases a)
  case (SelectBox sel)
  then show ?thesis by (simp add: handle_def select_note_location)
next
  case (Utter p r)
  then show ?thesis by (simp add: handle_def chat_input_location)
next
  case (Delete checkbox button)
  then show ?thesis by (simp add: handle_def delete_note_location)
next
  case (PlaceNote now_id note_title note_hashtags)
  then show ?thesis by (simp add: handle_def popup_note_form_location)
next
  case (Post post_time text_input uploaded_file entry_tags)
  then show ?thesis by (simp add: handle_def split: sum.splits)
qed (simp_all add: handle_def on_error_keep_def search_hashtag_btn_def start_chat_btn_def
      stop_chat_btn_def)

lemma login_session_run:
  assumes "user_location (sample_location location (apply_switch login_session)) = None"
  shows "sample_location location (apply_switch login_session) = login_session"
    and "script_run gc json_loads u (location, seed, a) (all_notes, login_session)
          = (all_notes, login_session)"
proof -
  have sw: "apply_switch login_session = login_session"
    by (simp add: apply_switch_def login_session_def init_session_def)
  with assms show same: "sample_location location (apply_switch login_session) = login_session"
    by (auto simp: sample_location_def split: option.splits if_splits)
  obtain now places_nearby where seed: "seed = (now, places_nearby)" by (cases seed)
  have "user_location login_session = None" "center login_session = None"
    by (simp_all add: login_session_def init_session_def)
  then show "script_run gc json_loads u (location, seed, a) (all_notes, login_session)
          = (all_notes, login_session)"
    by (simp add: script_run_def seed same)
qed

lemma sample_keeps_location:
  "user_location (sample_location location (apply_switch s)) = None \<Longrightarrow> user_location s = None"
  by (auto simp: sample_location_def apply_switch_def split: option.splits if_splits)

lemma script_run_no_location:
  assumes "user_location s = None \<longrightarrow> s = login_session"
    and "user_location (snd (script_run gc json_loads u inp (all_notes, s))) = None"
  shows "snd (script_run gc json_loads u inp (all_notes, s)) = login_session"
proof -
  obtain location now places_nearby a where inp: "inp = (location, (now, places_nearby), a)"
    by (cases inp) auto
  let ?s = "sample_location location (apply_switch s)"
  show ?thesis
  proof (cases "user_location ?s = None")
    case True
    with assms(1) have s: "s = login_session" by (simp add: sample_keeps_location)
    from True login_session_run(2) [of location gc json_loads u "(now, places_nearby)" a all_notes]
    show ?thesis by (simp add: s inp)
  next
    case False
    have r: "user_location (refresh_nearby gc all_notes ?s) = user_location ?s"
      by (simp add: refresh_nearby_def split: option.splits)
    from handle_location [of gc json_loads u a all_notes "refresh_nearby gc all_notes ?s"]
    have "snd (handle gc json_loads u a (all_notes, refresh_nearby gc all_notes ?s)) = login_session
        \<or> user_location (snd (handle gc json_loads u a (all_notes, refresh_nearby gc all_notes ?s))) \<noteq> None"
      using False r by auto
    with assms(2) False show ?thesis
      by (auto simp: script_run_def inp Let_def split: if_splits)
  qed
qed

text \<open>
  Between runs, a session without a stored location is the session the login left: in
  particular it has no centre, no selection and no recommendation.
\<close>

lemma session_runs_no_location:
  "(user_location (snd w) = None \<longrightarrow> snd w = login_session) \<Longrightarrow>
   user_location (snd (session_runs gc json_loads u inps w)) = None \<Longrightarrow>
   snd (session_runs gc json_loads u inps w) = login_session"
proof (induction inps arbitrary: w)
  case Nil
  then show ?case by (simp add: session_runs_def)
next
  case (Cons inp inps)
  obtain all_notes s where w: "w = (all_notes, s)" by (cases w)
  have step: "user_location (snd (script_run gc json_loads u inp w)) = None
      \<longrightarrow> snd (script_run gc json_loads u inp w) = login_session"
    using Cons.prems(1) script_run_no_location [of s gc json_loads u inp all_notes]
    by (simp add: w)
  have "session_runs gc json_loads u (inp # inps) w
      = session_runs gc json_loads u inps (script_run gc json_loads u inp w)"
    by (simp add: session_runs_def)
  with Cons.IH [OF step] Cons.prems(2) show ?case by simp
qed

text \<open>
  C3: in every state a session reaches from the login in which no location is stored,
  the view gate and the posting gate answer \<open>LocationUnavailable\<close> for every note
  (no recommendation can exist there). And as long as the samples bring no location,
  a run shows the location notice and nothing else, whatever the user attempts, a post
  included, and leaves the stored notes and the session as they are: nothing is
  permitted, and the refusal names the location.
\<close>

theorem no_location_fails_closed:
  assumes "session_runs gc json_loads u inps (all_notes, login_session) = (ns, s)"
    and "user_location s = None"
  shows "is_viewable gc s n = LocationUnavailable
       \<and> post_allowed gc s n = LocationUnavailable
       \<and> (user_location (sample_location location (apply_switch s)) = None \<longrightarrow>
            page gc ns (sample_location location (apply_switch s)) = LocationPending
            \<and> script_run gc json_loads u (location, seed, a) (ns, s) = (ns, s))"
proof -
  have "user_location (snd (all_notes, login_session)) = None
      \<longrightarrow> snd (all_notes, login_session) = login_session"
    by simp
  from session_runs_no_location [OF this, of gc json_loads u inps] assms
  have s: "s = login_session" by simp
  have r: "\<not> id_is n (recommended_note_id login_session)"
    by (simp add: id_is_def login_session_def init_session_def)
  have c: "center login_session = None"
    by (simp add: login_session_def init_session_def)
  from no_location_gate [OF assms(2), of gc n] r
  have g: "is_viewable gc s n = LocationUnavailable \<and> post_allowed gc s n = LocationUnavailable"
    by (simp add: s)
  have "page gc ns (sample_location location (apply_switch s)) = LocationPending
      \<and> script_run gc json_loads u (location, seed, a) (ns, s) = (ns, s)"
    if h: "user_location (sample_location location (apply_switch s)) = None"
    using login_session_run(1) [of location]
      login_session_run(2) [where location = location and gc = gc and json_loads = json_loads
        and u = u and seed = seed and a = a and all_notes = ns] h c
    by (simp add: s page_def)
  with g show ?thesis by blast
qed

lemma runs_no_location_state:
  "session_runs flat_km loads_example bob runs_no_location ([note_n1], login_session)
     = ([note_n1], login_session)"
proof -
  have 1: "user_location (sample_location None (apply_switch login_session)) = None"
    by (simp add: sample_location_def apply_switch_def login_session_def init_session_def)
  have 2: "user_location (sample_location (Some (0, 139)) (apply_switch login_session)) = None"
    by (simp add: sample_location_def apply_switch_def login_session_def init_session_def)
  show ?thesis
    by (simp add: session_runs_def runs_no_location_def login_session_run(2) [OF 1]
        login_session_run(2) [OF 2])
qed

theorem no_location_fails_closed_witness:
  "session_runs flat_km loads_example bob runs_no_location ([note_n1], login_session)
     = ([note_n1], login_session)
   \<and> user_location login_session = None
   \<and> is_viewable flat_km login_session note_n1 = LocationUnavailable
   \<and> post_allowed flat_km login_session note_n1 = LocationUnavailable
   \<and> user_location (sample_location (Some (0, 139)) (apply_switch login_session)) = None
   \<and> page flat_km [note_n1] (sample_location (Some (0, 139)) (apply_switch login_session))
       = LocationPending
   \<and> script_run flat_km loads_example bob (Some (0, 139), no_places, Post 2 (ascii ''hi'') None [])
        ([note_n1], login_session) = ([note_n1], login_session)"
proof -
  have l: "user_location login_session = None"
    by (simp add: login_session_def init_session_def)
  have f: "user_location (sample_location (Some (0, 139)) (apply_switch login_session)) = None"
    by (simp add: sample_location_def apply_switch_def login_session_def init_session_def)
  from no_location_fails_closed [OF runs_no_location_state l, of note_n1 "Some (0, 139)"
      no_places "Post 2 (ascii ''hi'') None []"] f
  have "is_viewable flat_km login_session note_n1 = LocationUnavailable
      \<and> post_allowed flat_km login_session note_n1 = LocationUnavailable
      \<and> page flat_km [note_n1] (sample_location (Some (0, 139)) (apply_switch login_session))
          = LocationPending
      \<and> script_run flat_km loads_example bob (Some (0, 139), no_places, Post 2 (ascii ''hi'') None [])
           ([note_n1], login_session) = ([note_n1], login_session)"
    by blast
  with runs_no_location_state l f show ?thesis by blast
qed

subsection \<open>Deleting among notes that share an id\<close>

text \<open>
  C5 does not hold of the program when two notes share an id. The guard of line 566
  reads the creator of the first stored note with the selected id, and line 572 removes
  every note with that id. With the two notes placed at one clock reading, Alice's and
  Bob's, Alice selects the id near them and deletes: no \<open>PermissionError\<close> is
  reported, and Bob's note, of which she is not the creator, leaves the store with hers.
\<close>

theorem creator_of_first_deletes_all_with_id:
  "creator_id second_note \<noteq> user_id alice
   \<and> second_note \<in> set [first_note, second_note]
   \<and> session_runs flat_km loads_example alice runs_delete_same_id
        ([first_note, second_note], login_session)
       = ([], init_session\<lparr> mode := WriteMode, user_location := Some near_place,
               center := Some (35, 139), zoom := 17 \<rparr>)"
proof -
  let ?ns = "[first_note, second_note]"
  let ?sid = "Some (JStr (ascii ''1700000000.5''))"
  have c: "creator_id second_note \<noteq> user_id alice" "creator_id first_note = user_id alice"
    by (simp_all add: first_note_def second_note_def alice_def ascii_def)
  have i: "id_is first_note ?sid" "id_is second_note ?sid" "ascii ''1700000000.5'' \<noteq> []"
    by (simp_all add: id_is_def first_note_def second_note_def ascii_def)
  have d: "flat_km near_place (35, 139) \<le> 10"
    "lat first_note = 35" "lng first_note = 139" "lat second_note = 35" "lng second_note = 139"
    "fst near_place \<noteq> 0"
    by (simp_all add: flat_km_def near_place_def first_note_def second_note_def)
  have n: "nearby_filter flat_km near_place ?ns = ?ns"
    by (simp add: nearby_filter_def d)
  have f: "find_note ?ns ?sid = Some first_note"
    by (simp add: find_note_def i)
  have "session_runs flat_km loads_example alice runs_delete_same_id (?ns, login_session)
       = ([], init_session\<lparr> mode := WriteMode, user_location := Some near_place,
               center := Some (35, 139), zoom := 17 \<rparr>)"
    by (simp add: session_runs_def runs_delete_same_id_def no_places_def script_run_def
        handle_def login_session_def init_session_def sample_location_def apply_switch_def
        refresh_nearby_def select_note_def notes_to_display_def delete_note_def
        delete_block_def selected_note_def slot_truthy_def is_viewable_def after_def Let_def
        c i d n f)
  with c show ?thesis by simp
qed

subsection \<open>The recommendation is cleared with the selection\<close>

lemma delete_note_carried_out:
  assumes "selected_note all_notes s = Some d" and "is_viewable gc s d = Permit"
    and "creator_id d = user_id u"
  shows "delete_note gc u True True all_notes s
           = Inr (filter (\<lambda>m. \<not> id_is m (selected_note_id s)) all_notes,
                  s\<lparr>selected_note_id := None, nearby_notes := [], search_results := None,
                    recommended_note_id := None\<rparr>)"
  using assms by (simp add: delete_note_def delete_block_def)

text \<open>
  C10: in write mode, selecting a note other than the selected one (its id is not empty,
  as the id of every placed or seeded note) makes it the selection and clears the
  recommendation. Deleting clears it too: the creator of the selected, viewable note,
  with the box ticked and the button pressed, removes the notes with the selected id and
  resets selection and recommendation, and no delete ends otherwise. A run of the script
  whose action is not a chat utterance either clears the recommendation or leaves
  recommendation and selection as they were, so only a resolving reply installs one.
  Hence in every state a session reaches from the login, the recommendation is absent or
  is the selected id: a note that passes the view gate by the override is the note the
  reply last recommended, and it is still the selected one.
\<close>

theorem recommendation_only_while_selected:
  "(main_menu s = NoteOps \<and> mode s = WriteMode \<and> notes_to_display all_notes s \<noteq> []
      \<and> sid \<noteq> [] \<and> selected_note_id s \<noteq> Some (JStr sid)
      \<longrightarrow> selected_note_id (select_note (Some sid) all_notes s) = Some (JStr sid)
        \<and> recommended_note_id (select_note (Some sid) all_notes s) = None)
   \<and> (selected_note all_notes s = Some d \<and> is_viewable gc s d = Permit \<and> creator_id d = user_id u
      \<longrightarrow> delete_note gc u True True all_notes s
            = Inr (filter (\<lambda>m. \<not> id_is m (selected_note_id s)) all_notes,
                   s\<lparr>selected_note_id := None, nearby_notes := [], search_results := None,
                     recommended_note_id := None\<rparr>))
   \<and> (delete_note gc u checkbox button all_notes s = Inr w
      \<longrightarrow> recommended_note_id (snd w) = None \<and> selected_note_id (snd w) = None)
   \<and> ((\<forall>p r. a \<noteq> Utter p r)
      \<longrightarrow> recommended_note_id (snd (script_run gc json_loads u (location, seed, a) (all_notes, s))) = None
        \<or> (recommended_note_id (snd (script_run gc json_loads u (location, seed, a) (all_notes, s)))
              = recommended_note_id s
           \<and> selected_note_id (snd (script_run gc json_loads u (location, seed, a) (all_notes, s)))
              = selected_note_id s))
   \<and> (recommended_note_id (snd (session_runs gc json_loads u inps (all_notes, login_session))) = None
      \<or> recommended_note_id (snd (session_runs gc json_loads u inps (all_notes, login_session)))
         = selected_note_id (snd (session_runs gc json_loads u inps (all_notes, login_session))))
   \<and> (id_is n (recommended_note_id (snd (session_runs gc json_loads u inps (all_notes, login_session))))
      \<longrightarrow> id_is n (selected_note_id (snd (session_runs gc json_loads u inps (all_notes, login_session)))))"
proof (intro conjI impI)
  assume h: "main_menu s = NoteOps \<and> mode s = WriteMode \<and> notes_to_display all_notes s \<noteq> []
      \<and> sid \<noteq> [] \<and> selected_note_id s \<noteq> Some (JStr sid)"
  then have ne: "Some (JStr sid) \<noteq> selected_note_id s" by metis
  from h ne show "selected_note_id (select_note (Some sid) all_notes s) = Some (JStr sid)"
    by (simp add: select_note_def Let_def split: option.splits)
  from h ne show "recommended_note_id (select_note (Some sid) all_notes s) = None"
    by (simp add: select_note_def Let_def split: option.splits)
next
  assume "selected_note all_notes s = Some d \<and> is_viewable gc s d = Permit
      \<and> creator_id d = user_id u"
  then show "delete_note gc u True True all_notes s
            = Inr (filter (\<lambda>m. \<not> id_is m (selected_note_id s)) all_notes,
                   s\<lparr>selected_note_id := None, nearby_notes := [], search_results := None,
                     recommended_note_id := None\<rparr>)"
    by (simp add: delete_note_carried_out)
next
  assume "delete_note gc u checkbox button all_notes s = Inr w"
  from delete_note_slots [OF this]
  show "recommended_note_id (snd w) = None" and "selected_note_id (snd w) = None"
    by simp_all
next
  assume "\<forall>p r. a \<noteq> Utter p r"
  then show "recommended_note_id (snd (script_run gc json_loads u (location, seed, a) (all_notes, s))) = None
        \<or> (recommended_note_id (snd (script_run gc json_loads u (location, seed, a) (all_notes, s)))
              = recommended_note_id s
           \<and> selected_note_id (snd (script_run gc json_loads u (location, seed, a) (all_notes, s)))
              = selected_note_id s)"
    by (rule script_run_slots)
next
  have start: "recommended_note_id (snd (all_notes, login_session)) = None
      \<or> recommended_note_id (snd (all_notes, login_session)) = selected_note_id (snd (all_notes, login_session))"
    by (simp add: login_session_def init_session_def)
  show inv: "recommended_note_id (snd (session_runs gc json_loads u inps (all_notes, login_session))) = None
      \<or> recommended_note_id (snd (session_runs gc json_loads u inps (all_notes, login_session)))
         = selected_note_id (snd (session_runs gc json_loads u inps (all_notes, login_session)))"
    by (rule session_runs_inv [OF start])
  show "id_is n (selected_note_id (snd (session_runs gc json_loads u inps (all_notes, login_session))))"
    if "id_is n (recommended_note_id (snd (session_runs gc json_loads u inps (all_notes, login_session))))"
    using that inv by (auto simp: id_is_def)
qed

text \<open>
  The session of the example up to the recommendation, in a store that holds the
  recommended note: the reply installs \<open>abc123\<close> and moves the map to Bob's hut.
\<close>

lemma runs_resolved_state:
  "session_runs flat_km loads_example bob runs_resolved ([note_n1, note_abc], login_session)
     = ([note_n1, note_abc],
        init_session\<lparr> main_menu := Search, user_location := Some near_place,
          center := Some (36, 140), zoom := 17, nearby_notes := [note_n1],
          chat_messages := [(Assistant, greeting), (User, ascii ''quiet''),
            (Assistant, ascii ''Here you go!'')],
          recommended_note_id := Some (JStr (ascii ''abc123'')),
          selected_note_id := Some (JStr (ascii ''abc123'')),
          switch_to_note_mode := True \<rparr>)"
proof -
  have l: "loads_example json_abc123 = Some [(key_name, JStr (ascii ''abc123''))]"
    by (simp add: loads_example_def)
  have n: "nearby_filter flat_km near_place [note_n1, note_abc] = [note_n1]"
    by (simp add: nearby_filter_def flat_km_def near_place_def note_n1_def note_abc_def)
  have f: "find_note [note_n1, note_abc] (Some (JStr (ascii ''abc123''))) = Some note_abc"
    by (simp add: find_note_def id_is_def note_n1_def note_abc_def ascii_def)
  have q: "ascii ''quiet'' \<noteq> []" "ascii ''Here you go!'' \<noteq> []" "ascii ''abc123'' \<noteq> []"
    "fst near_place \<noteq> 0" "lat note_abc = 36" "lng note_abc = 140"
    by (simp_all add: ascii_def near_place_def note_abc_def)
  show ?thesis
    by (simp add: session_runs_def runs_resolved_def no_places_def script_run_def handle_def
        login_session_def init_session_def sample_location_def apply_switch_def
        refresh_nearby_def start_chat_btn_def on_error_keep_def chat_input_def
        process_reply_def say_def install_recommendation_def Let_def
        re_search_reply_abc123 remainder_reply_abc123 l n f q)
qed

theorem recommendation_only_while_selected_witness:
  "recommended_note_id (snd (session_runs flat_km loads_example bob runs_resolved
        ([note_n1, note_abc], login_session))) = Some (JStr (ascii ''abc123''))
   \<and> selected_note_id (snd (session_runs flat_km loads_example bob runs_resolved
        ([note_n1, note_abc], login_session))) = Some (JStr (ascii ''abc123''))
   \<and> recommended_note_id (snd (session_runs flat_km loads_example bob runs_reselected
        ([note_n1, note_abc], login_session))) = None
   \<and> selected_note_id (snd (session_runs flat_km loads_example bob runs_reselected
        ([note_n1, note_abc], login_session))) = Some (JStr (ascii ''n1''))
   \<and> fst (session_runs flat_km loads_example bob runs_deleted
        ([note_n1, note_abc], login_session)) = [note_n1]
   \<and> recommended_note_id (snd (session_runs flat_km loads_example bob runs_deleted
        ([note_n1, note_abc], login_session))) = None
   \<and> selected_note_id (snd (session_runs flat_km loads_example bob runs_deleted
        ([note_n1, note_abc], login_session))) = None"
proof -
  let ?ns = "[note_n1, note_abc]"
  let ?h = "init_session\<lparr> main_menu := NoteOps, mode := WriteMode,
      user_location := Some near_place, center := Some (36, 140), zoom := 17,
      nearby_notes := [note_n1],
      chat_messages := [(Assistant, greeting), (User, ascii ''quiet''),
        (Assistant, ascii ''Here you go!'')],
      recommended_note_id := Some (JStr (ascii ''abc123'')),
      selected_note_id := Some (JStr (ascii ''abc123'')) \<rparr>"
  have n: "nearby_filter flat_km near_place ?ns = [note_n1]"
    by (simp add: nearby_filter_def flat_km_def near_place_def note_n1_def note_abc_def)
  have sel_run: "session_runs flat_km loads_example bob runs_reselected (?ns, login_session)
      = (?ns, select_note (Some (ascii ''n1'')) ?ns ?h)"
    unfolding runs_reselected_def session_runs_def foldl_append
    unfolding session_runs_def [symmetric] runs_resolved_state
    by (simp add: session_runs_def no_places_def script_run_def handle_def init_session_def
        sample_location_def apply_switch_def refresh_nearby_def Let_def n)
  have del_run: "session_runs flat_km loads_example bob runs_deleted (?ns, login_session)
      = after (delete_note flat_km bob True True ?ns ?h) (?ns, ?h)"
    unfolding runs_deleted_def session_runs_def foldl_append
    unfolding session_runs_def [symmetric] runs_resolved_state
    by (simp add: session_runs_def no_places_def script_run_def handle_def init_session_def
        sample_location_def apply_switch_def refresh_nearby_def Let_def n)
  have hs: "main_menu ?h = NoteOps \<and> mode ?h = WriteMode \<and> notes_to_display ?ns ?h \<noteq> []
      \<and> ascii ''n1'' \<noteq> [] \<and> selected_note_id ?h \<noteq> Some (JStr (ascii ''n1''))"
    by (simp add: init_session_def notes_to_display_def ascii_def)
  have hd: "selected_note ?ns ?h = Some note_abc \<and> is_viewable flat_km ?h note_abc = Permit
      \<and> creator_id note_abc = user_id bob"
    by (simp add: selected_note_def find_note_def id_is_def slot_truthy_def is_viewable_def
        init_session_def note_n1_def note_abc_def bob_def ascii_def)
  note inst = recommendation_only_while_selected [where s = ?h and all_notes = ?ns
      and sid = "ascii ''n1''" and d = note_abc and gc = flat_km and u = bob]
  from inst hs have s1: "selected_note_id (select_note (Some (ascii ''n1'')) ?ns ?h)
        = Some (JStr (ascii ''n1''))
      \<and> recommended_note_id (select_note (Some (ascii ''n1'')) ?ns ?h) = None"
    by blast
  from inst hd have "delete_note flat_km bob True True ?ns ?h
      = Inr (filter (\<lambda>m. \<not> id_is m (selected_note_id ?h)) ?ns,
             ?h\<lparr>selected_note_id := None, nearby_notes := [], search_results := None,
               recommended_note_id := None\<rparr>)"
    by blast
  moreover have "filter (\<lambda>m. \<not> id_is m (selected_note_id ?h)) ?ns = [note_n1]"
    by (simp add: id_is_def init_session_def note_n1_def note_abc_def ascii_def)
  ultimately have d1: "after (delete_note flat_km bob True True ?ns ?h) (?ns, ?h)
      = ([note_n1], ?h\<lparr>selected_note_id := None, nearby_notes := [], search_results := None,
               recommended_note_id := None\<rparr>)"
    by (simp add: after_def)
  show ?thesis
    unfolding sel_run del_run d1 runs_resolved_state using s1 by simp
qed

end
